theory Spec2Isabelle
  imports Complex_Main
begin

section \<open>The storefront of src/index.tsx\<close>

text \<open>
  The page is one module: it reads the API key, builds the AI client, and renders
  \<^verbatim>\<open>App\<close>. \<^verbatim>\<open>App\<close> holds four pieces of state and starts
  \<^verbatim>\<open>fetchProducts\<close> once, when it is mounted. \<^verbatim>\<open>fetchProducts\<close> is
  asynchronous: it is suspended at the text call and at \<^verbatim>\<open>Promise.all\<close>, and
  the image calls it fans out settle in an order the program does not choose. The model
  makes each settlement an event of an event loop, next to the two click handlers of the
  chat widget, and runs the page over an arbitrary list of events.
\<close>

subsection \<open>Values\<close>

text \<open>
  A JavaScript exception: \<^verbatim>\<open>new Error(message)\<close> (thrown by the module itself or
  by the SDK), the \<^verbatim>\<open>SyntaxError\<close> of \<^verbatim>\<open>JSON.parse\<close>, and the
  \<^verbatim>\<open>TypeError\<close> of reading a property of \<^verbatim>\<open>undefined\<close>.
\<close>

datatype js_error = Error string | SyntaxError | TypeError

text \<open>
  A JavaScript number as \<^verbatim>\<open>JSON.parse\<close> can return it: the exact rational value
  of a finite double, or an infinity (the literal \<^verbatim>\<open>1e999\<close>); \<^verbatim>\<open>NaN\<close> for
  completeness.
\<close>

datatype number = Finite rat | PosInfinity | NegInfinity | NaN

text \<open>
  The response schema of the text call (lines 99 to 110): an array of objects with the
  required properties name (string), description (string) and price (number). The model
  takes the elements of the parsed array at that type.
\<close>

record ProductSpec =
  name :: string
  description :: string
  price :: number

text \<open>Line 132, \<^verbatim>\<open>{ ...product, imageUrl }\<close>: the spec's fields and one more.\<close>

record Product = ProductSpec +
  imageUrl :: string

text \<open>Lines 77 to 80: the four \<^verbatim>\<open>useState\<close> cells of \<^verbatim>\<open>App\<close>.\<close>

record UIState =
  products :: "Product list"
  loading :: bool
  error :: string
  isChatOpen :: bool

subsection \<open>Number.prototype.toFixed\<close>

definition digits :: string where
  "digits = ''0123456789''"

function decimal :: "nat \<Rightarrow> string" where
  "decimal n = (if n < 10 then [digits ! n] else decimal (n div 10) @ [digits ! (n mod 10)])"
  by pat_completeness auto
termination
  by (relation "measure (\<lambda>n. n)") auto

declare decimal.simps [simp del]

text \<open>
  \<^verbatim>\<open>x.toFixed(f)\<close> as ECMAScript defines it, on the exact value of the number. A
  number that is not finite, or whose magnitude is at least \<open>10^21\<close>, is printed by
  \<^verbatim>\<open>Number::toString\<close>, which is the parameter \<open>toString\<close>. Otherwise \<open>n\<close> is
  the integer nearest to \<open>x * 10^f\<close>, the larger one on a tie, printed with \<open>f\<close>
  digits after the point.
\<close>

definition toFixed :: "(number \<Rightarrow> string) \<Rightarrow> nat \<Rightarrow> number \<Rightarrow> string" where
  "toFixed toString f x =
     (case x of
        Finite r \<Rightarrow>
          (let s = (if r < 0 then ''-'' else '''');
               a = \<bar>r\<bar>
           in if 10 ^ 21 \<le> a then s @ toString (Finite a)
              else
                (let n = nat \<lfloor>a * 10 ^ f + 1 / 2\<rfloor>;
                     m = (if n = 0 then ''0'' else decimal n);
                     m' = (if f \<noteq> 0 \<and> length m \<le> f
                           then replicate (f + 1 - length m) (CHR ''0'') @ m else m);
                     k = length m'
                 in if f \<noteq> 0 then s @ take (k - f) m' @ ''.'' @ drop (k - f) m'
                    else s @ m'))
      | _ \<Rightarrow> toString x)"

subsection \<open>The view\<close>

text \<open>
  What \<^verbatim>\<open>ProductCard\<close> (lines 37 to 52) puts on the page for one product: the
  image's source and alternative text, the heading, the description, the price
  paragraph and the button's label.
\<close>

record Card =
  img_src :: string
  img_alt :: string
  product_name :: string
  product_description :: string
  product_price :: string
  buy_button_label :: string

definition ProductCard :: "(number \<Rightarrow> string) \<Rightarrow> Product \<Rightarrow> Card" where
  "ProductCard toString product =
     \<lparr>img_src = imageUrl product,
      img_alt = ''AI generated image of '' @ name product,
      product_name = name product,
      product_description = description product,
      product_price = ''$'' @ toFixed toString 2 (price product),
      buy_button_label = ''Add '' @ name product @ '' to cart''\<rparr>"

text \<open>
  What \<^verbatim>\<open>App\<close> returns (lines 149 to 165), the static header left out: whether the
  loader is there, the error box if there is one, the product grid if there is one, and
  the class of the chat window (line 60). In JavaScript the empty string is falsy, so
  \<^verbatim>\<open>error && ...\<close> renders the box exactly when \<open>error\<close> is not empty.
\<close>

record View =
  loader :: bool
  error_box :: "string option"
  products_grid :: "Card list option"
  chat_window_class :: string

definition App :: "(number \<Rightarrow> string) \<Rightarrow> UIState \<Rightarrow> View" where
  "App toString s =
     \<lparr>loader = loading s,
      error_box = (if error s \<noteq> '''' then Some (error s) else None),
      products_grid =
        (if \<not> loading s \<and> error s = '''' then Some (map (ProductCard toString) (products s))
         else None),
      chat_window_class = ''chat-window '' @ (if isChatOpen s then ''open'' else '''')\<rparr>"

subsection \<open>The chat widget's handlers\<close>

text \<open>
  Line 57, the bubble: \<^verbatim>\<open>() => setChatOpen(!isChatOpen)\<close>. The handler closes
  over the \<^verbatim>\<open>isChatOpen\<close> prop of the render that made it, so a click on the
  bubble carries that captured value: it is the current state when the page has rendered
  since the last click, and the older one when two clicks come before the next render.
  Line 63, the close button: \<^verbatim>\<open>setChatOpen(false)\<close>.
\<close>

datatype chat_click = Bubble bool | Close

fun LiveChat_onClick :: "UIState \<Rightarrow> chat_click \<Rightarrow> UIState" where
  "LiveChat_onClick s (Bubble rendered) = s\<lparr>isChatOpen := \<not> rendered\<rparr>"
| "LiveChat_onClick s Close = s\<lparr>isChatOpen := False\<rparr>"

subsection \<open>The AI client\<close>

text \<open>
  The two calls of the SDK, with the arguments the module passes. The schema is the
  literal of lines 99 to 110.
\<close>

datatype Schema =
    ARRAY Schema
  | OBJECT "(string \<times> Schema) list" "string list"
  | STRING string
  | NUMBER string

record GenerateContentParameters =
  content_model :: string
  contents :: string
  responseMimeType :: string
  responseSchema :: Schema

record GenerateContentResponse =
  response_text :: "string option"

record GenerateImagesParameters =
  image_model :: string
  prompt :: string
  numberOfImages :: nat
  outputMimeType :: string
  aspectRatio :: string

text \<open>
  Line 129 reads \<^verbatim>\<open>imageResponse.generatedImages[0].image.imageBytes\<close>. Every
  link of that chain can be missing in a response, so each is optional here.
\<close>

record Image =
  imageBytes :: "string option"

record GeneratedImage =
  image_data :: "Image option"

record GenerateImagesResponse =
  generatedImages :: "GeneratedImage list option"

text \<open>
  What the page cannot decide: what the text call returns, what \<^verbatim>\<open>JSON.parse\<close>
  makes of the returned text, and what the image call number \<open>i\<close> (the index of its
  product in the parsed array) returns. \<open>Inl\<close> is a rejected promise or a thrown
  exception.
\<close>

record Env =
  generateContent :: "GenerateContentParameters \<Rightarrow> js_error + GenerateContentResponse"
  JSON_parse :: "string \<Rightarrow> js_error + ProductSpec list"
  generateImages :: "nat \<Rightarrow> GenerateImagesParameters \<Rightarrow> js_error + GenerateImagesResponse"

subsection \<open>fetchProducts\<close>

text \<open>Lines 88 to 92, with the line breaks and the indentation of the template literal.\<close>

definition textPrompt :: string where
  "textPrompt =
     [CHR 0x0A] @ ''          You are an AI for ClesdafedGaming, a gaming YouTube channel. Generate a list of 5 unique, cool, and desirable merchandise items for the channel's online store. ''
     @ [CHR 0x0A] @ ''          The items should be apparel like t-shirts. ''
     @ [CHR 0x0A] @ ''          For each item, provide a catchy, gaming-related name, a brief and exciting description (under 15 words). and a price.''
     @ [CHR 0x0A] @ ''        ''"

definition textRequest :: GenerateContentParameters where
  "textRequest =
     \<lparr>content_model = ''gemini-2.5-flash'',
      contents = textPrompt,
      responseMimeType = ''application/json'',
      responseSchema =
        ARRAY (OBJECT
          [(''name'', STRING ''The creative name of the product.''),
           (''description'', STRING ''A short, punchy product description.''),
           (''price'', NUMBER ''The price of the product in USD.'')]
          [''name'', ''description'', ''price''])\<rparr>"

text \<open>Line 117.\<close>

definition imagePrompt :: "string \<Rightarrow> string" where
  "imagePrompt productName =
     ''A professional ecommerce product photograph of a t-shirt featuring a clean, modern, minimalist graphic design inspired by ''
     @ [CHR 0x22] @ productName @ [CHR 0x22]
     @ ''. The t-shirt is neatly displayed on a neutral, light gray background. High-quality, commercial photography.''"

text \<open>Lines 119 to 127.\<close>

definition imageRequest :: "ProductSpec \<Rightarrow> GenerateImagesParameters" where
  "imageRequest product =
     \<lparr>image_model = ''imagen-4.0-generate-001'',
      prompt = imagePrompt (name product),
      numberOfImages = 1,
      outputMimeType = ''image/png'',
      aspectRatio = ''1:1''\<rparr>"

text \<open>
  Lines 94 and 114: the awaited text call, then \<^verbatim>\<open>JSON.parse(textResponse.text)\<close>.
  A response without text gives \<^verbatim>\<open>JSON.parse(undefined)\<close>, which throws a
  \<^verbatim>\<open>SyntaxError\<close>.
\<close>

definition productTextData :: "Env \<Rightarrow> js_error + ProductSpec list" where
  "productTextData env =
     (case generateContent env textRequest of
        Inl err \<Rightarrow> Inl err
      | Inr textResponse \<Rightarrow>
          (case response_text textResponse of
             None \<Rightarrow> Inl SyntaxError
           | Some t \<Rightarrow> JSON_parse env t))"

text \<open>
  Lines 129 and 130. Reading \<^verbatim>\<open>[0]\<close> of a missing array, \<^verbatim>\<open>.image\<close> of a
  missing first element or \<^verbatim>\<open>.imageBytes\<close> of a missing image throws a
  \<^verbatim>\<open>TypeError\<close>; missing bytes are interpolated as the text \<^verbatim>\<open>undefined\<close>.
\<close>

definition imageUrl_of :: "GenerateImagesResponse \<Rightarrow> js_error + string" where
  "imageUrl_of imageResponse =
     (case generatedImages imageResponse of
        None \<Rightarrow> Inl TypeError
      | Some [] \<Rightarrow> Inl TypeError
      | Some (first # _) \<Rightarrow>
          (case image_data first of
             None \<Rightarrow> Inl TypeError
           | Some img \<Rightarrow>
               (let base64ImageBytes = (case imageBytes img of None \<Rightarrow> ''undefined'' | Some b \<Rightarrow> b)
                in Inr (''data:image/png;base64,'' @ base64ImageBytes))))"

text \<open>
  Lines 116 to 133: the promise that the callback of \<^verbatim>\<open>map\<close> returns for the
  product at index \<open>i\<close>, as it settles.
\<close>

definition productPromise :: "Env \<Rightarrow> nat \<Rightarrow> ProductSpec \<Rightarrow> js_error + Product" where
  "productPromise env i product =
     (case generateImages env i (imageRequest product) of
        Inl err \<Rightarrow> Inl err
      | Inr imageResponse \<Rightarrow>
          (case imageUrl_of imageResponse of
             Inl err \<Rightarrow> Inl err
           | Inr url \<Rightarrow>
               Inr \<lparr>name = name product, description = description product,
                    price = price product, imageUrl = url\<rparr>))"

subsection \<open>The page as an event loop\<close>

text \<open>
  Where \<^verbatim>\<open>fetchProducts\<close> stands: suspended at the text call; suspended at
  \<^verbatim>\<open>Promise.all\<close>, which holds the parsed array and one slot per promise, filled
  when that promise is fulfilled; or returned.
\<close>

datatype phase =
    AwaitingText
  | AwaitingImages "ProductSpec list" "Product option list"
  | Finished

text \<open>
  The page: the state of \<^verbatim>\<open>App\<close>, the workflow's position, the requests sent so far
  and what \<^verbatim>\<open>console.error\<close> has been given.
\<close>

record World =
  ui :: UIState
  phase :: phase
  textCalls :: "GenerateContentParameters list"
  imageCalls :: "GenerateImagesParameters list"
  console :: "js_error list"

definition errorMessage :: string where
  "errorMessage = ''Failed to generate merchandise. Please try again later.''"

text \<open>Lines 138 to 143: the catch block, then the finally block.\<close>

definition catch_finally :: "js_error \<Rightarrow> World \<Rightarrow> World" where
  "catch_finally err w =
     w\<lparr>console := console w @ [err],
       ui := (ui w)\<lparr>error := errorMessage, loading := False\<rparr>,
       phase := Finished\<rparr>"

text \<open>Line 136, then the finally block.\<close>

definition setProducts_finally :: "Product list \<Rightarrow> World \<Rightarrow> World" where
  "setProducts_finally productsWithImages w =
     w\<lparr>ui := (ui w)\<lparr>products := productsWithImages, loading := False\<rparr>,
       phase := Finished\<rparr>"

text \<open>
  Line 135. \<^verbatim>\<open>Promise.all\<close> is fulfilled, with the slots in index order, once no
  slot is empty (at once for an empty array); until then \<^verbatim>\<open>fetchProducts\<close> stays
  suspended.
\<close>

definition await_all :: "ProductSpec list \<Rightarrow> Product option list \<Rightarrow> World \<Rightarrow> World" where
  "await_all specs slots w =
     (if None \<in> set slots then w\<lparr>phase := AwaitingImages specs slots\<rparr>
      else setProducts_finally (map the slots) w)"

text \<open>
  Lines 77 to 94: the first render with the initial state, then the effect, which runs
  \<^verbatim>\<open>fetchProducts\<close> up to its first \<^verbatim>\<open>await\<close>.
\<close>

definition initialState :: UIState where
  "initialState = \<lparr>products = [], loading = True, error = '''', isChatOpen = False\<rparr>"

definition mount :: World where
  "mount =
     \<lparr>ui = initialState\<lparr>loading := True, error := ''''\<rparr>,
      phase = AwaitingText,
      textCalls = [textRequest],
      imageCalls = [],
      console = []\<rparr>"

text \<open>
  Lines 114 to 135, when the text call has settled: parse, start one image call per
  element in index order, and wait for all of them.
\<close>

definition fetchProducts_resume :: "Env \<Rightarrow> World \<Rightarrow> World" where
  "fetchProducts_resume env w =
     (case productTextData env of
        Inl err \<Rightarrow> catch_finally err w
      | Inr specs \<Rightarrow>
          await_all specs (replicate (length specs) None)
            (w\<lparr>imageCalls := imageCalls w @ map imageRequest specs\<rparr>))"

text \<open>
  One turn of the event loop. A promise settles once: a settlement that comes when
  nothing waits for it changes nothing. The first rejected image promise rejects
  \<^verbatim>\<open>Promise.all\<close>; a fulfilled one fills its own slot.
\<close>

datatype event = TextSettles | ImageSettles nat | Click chat_click

fun step :: "Env \<Rightarrow> World \<Rightarrow> event \<Rightarrow> World" where
  "step env w TextSettles =
     (case phase w of AwaitingText \<Rightarrow> fetchProducts_resume env w | _ \<Rightarrow> w)"
| "step env w (ImageSettles i) =
     (case phase w of
        AwaitingImages specs slots \<Rightarrow>
          (if i < length specs \<and> i < length slots \<and> slots ! i = None then
             (case productPromise env i (specs ! i) of
                Inl err \<Rightarrow> catch_finally err w
              | Inr p \<Rightarrow> await_all specs (slots[i := Some p]) w)
           else w)
      | _ \<Rightarrow> w)"
| "step env w (Click c) = w\<lparr>ui := LiveChat_onClick (ui w) c\<rparr>"

definition run :: "Env \<Rightarrow> event list \<Rightarrow> World" where
  "run env evs = foldl (step env) mount evs"

subsection \<open>Startup\<close>

text \<open>
  Lines 10 to 14 and 168. \<^verbatim>\<open>!API_KEY\<close> holds of a missing variable and of an empty
  one; the throw ends the module before the client is built and before anything is
  rendered.
\<close>

record GoogleGenAI =
  apiKey :: string

definition startup :: "(string \<rightharpoonup> string) \<Rightarrow> js_error + GoogleGenAI \<times> World" where
  "startup process_env =
     (case process_env ''API_KEY'' of
        None \<Rightarrow> Inl (Error ''API_KEY environment variable not set'')
      | Some API_KEY \<Rightarrow>
          (if API_KEY = '''' then Inl (Error ''API_KEY environment variable not set'')
           else Inr (\<lparr>apiKey = API_KEY\<rparr>, mount)))"

subsection \<open>The data-model invariant of the specification\<close>

text \<open>
  The specification's data model asks of a ProductSpec that its name and description
  are not empty and that its price is a non-negative number. No line of the module
  tests this; the predicate is here to be compared with what the workflow passes on.
\<close>

definition nonNegative :: "number \<Rightarrow> bool" where
  "nonNegative x = (case x of Finite r \<Rightarrow> 0 \<le> r | PosInfinity \<Rightarrow> True | _ \<Rightarrow> False)"

definition ProductSpec_invariant :: "'a ProductSpec_scheme \<Rightarrow> bool" where
  "ProductSpec_invariant p = (name p \<noteq> '''' \<and> description p \<noteq> '''' \<and> nonNegative (price p))"

subsection \<open>Invariants of the event loop\<close>

text \<open>
  Line 116, \<^verbatim>\<open>productTextData.map(async (product) => ...)\<close>: one promise per element,
  in the order of the array.
\<close>

definition productPromises :: "Env \<Rightarrow> ProductSpec list \<Rightarrow> (js_error + Product) list" where
  "productPromises env specs =
     map (\<lambda>(i, product). productPromise env i product) (enumerate 0 specs)"

text \<open>A filled slot holds what its own promise was fulfilled with.\<close>

definition slots_ok :: "Env \<Rightarrow> ProductSpec list \<Rightarrow> Product option list \<Rightarrow> bool" where
  "slots_ok env specs slots \<longleftrightarrow>
     length slots = length specs \<and>
     (\<forall>i<length specs. \<forall>p. slots ! i = Some p \<longrightarrow> productPromise env i (specs ! i) = Inr p)"

text \<open>How a finished workflow can look: the catch block ran, or line 136 did.\<close>

definition failed_inv :: "Env \<Rightarrow> World \<Rightarrow> bool" where
  "failed_inv env w \<longleftrightarrow>
     error (ui w) = errorMessage \<and> products (ui w) = [] \<and> console w \<noteq> [] \<and>
     ((\<exists>e. productTextData env = Inl e \<and> imageCalls w = []) \<or>
      (\<exists>specs i e. productTextData env = Inr specs \<and> i < length specs \<and>
         productPromise env i (specs ! i) = Inl e \<and> imageCalls w = map imageRequest specs))"

definition succeeded_inv :: "Env \<Rightarrow> World \<Rightarrow> bool" where
  "succeeded_inv env w \<longleftrightarrow>
     error (ui w) = '''' \<and> console w = [] \<and>
     (\<exists>specs. productTextData env = Inr specs \<and> imageCalls w = map imageRequest specs \<and>
        map Inr (products (ui w)) = productPromises env specs)"

definition world_inv :: "Env \<Rightarrow> World \<Rightarrow> bool" where
  "world_inv env w \<longleftrightarrow>
     textCalls w = [textRequest] \<and>
     (case phase w of
        AwaitingText \<Rightarrow>
          products (ui w) = [] \<and> loading (ui w) \<and> error (ui w) = '''' \<and>
          imageCalls w = [] \<and> console w = []
      | AwaitingImages specs slots \<Rightarrow>
          productTextData env = Inr specs \<and> slots_ok env specs slots \<and> None \<in> set slots \<and>
          products (ui w) = [] \<and> loading (ui w) \<and> error (ui w) = '''' \<and>
          imageCalls w = map imageRequest specs \<and> console w = []
      | Finished \<Rightarrow> \<not> loading (ui w) \<and> (failed_inv env w \<or> succeeded_inv env w))"

text \<open>The image promises \<^verbatim>\<open>Promise.all\<close> still waits for.\<close>

definition pending :: "World \<Rightarrow> nat set" where
  "pending w =
     (case phase w of
        AwaitingImages specs slots \<Rightarrow> {i. i < length specs \<and> i < length slots \<and> slots ! i = None}
      | _ \<Rightarrow> {})"

text \<open>
  Telling the workflow from the chat: \<open>is_click\<close> picks the events of the chat
  widget, and \<open>without_chat\<close> forgets whether the chat window is open.
\<close>

fun is_click :: "event \<Rightarrow> bool" where
  "is_click (Click c) = True"
| "is_click ev = False"

definition without_chat :: "World \<Rightarrow> World" where
  "without_chat w = w\<lparr>ui := (ui w)\<lparr>isChatOpen := False\<rparr>\<rparr>"

subsection \<open>Concrete runs\<close>

text \<open>
  An environment in which the text call returns the text \<open>json\<close>, which parses to
  \<open>specs\<close> (any other text is a syntax error), and image call \<open>i\<close> returns
  \<open>images i\<close>. \<open>oneImage\<close> is a response with a single generated image.
\<close>

definition scenario ::
  "string \<Rightarrow> ProductSpec list \<Rightarrow> (nat \<Rightarrow> js_error + GenerateImagesResponse) \<Rightarrow> Env" where
  "scenario json specs images =
     \<lparr>generateContent = (\<lambda>request. Inr \<lparr>response_text = Some json\<rparr>),
      JSON_parse = (\<lambda>t. if t = json then Inr specs else Inl SyntaxError),
      generateImages = (\<lambda>i request. images i)\<rparr>"

definition oneImage :: "string \<Rightarrow> GenerateImagesResponse" where
  "oneImage bytes = \<lparr>generatedImages = Some [\<lparr>image_data = Some \<lparr>imageBytes = Some bytes\<rparr>\<rparr>]\<rparr>"

text \<open>
  The double nearest to 24.99: \<open>7034059667999293 / 2^48\<close>, which is what
  \<^verbatim>\<open>JSON.parse\<close> makes of the literal \<^verbatim>\<open>24.99\<close>.
\<close>

definition double_24_99 :: rat where
  "double_24_99 = 7034059667999293 / 281474976710656"

definition bossTee :: ProductSpec where
  "bossTee = \<lparr>name = ''Boss Tee'', description = ''Defeat lag in style'', price = Finite double_24_99\<rparr>"

definition bossTeeJSON :: string where
  \<open>bossTeeJSON = ''[{"name":"Boss Tee","description":"Defeat lag in style","price":24.99}]''\<close>

definition bossTeeEnv :: Env where
  "bossTeeEnv = scenario bossTeeJSON [bossTee] (\<lambda>i. Inr (oneImage ''AAAA''))"

text \<open>Two products, for runs whose image calls settle in either order.\<close>

definition lagSlayer :: ProductSpec where
  "lagSlayer = \<lparr>name = ''Lag Slayer'', description = ''Ping under control'', price = Finite 19\<rparr>"

definition twoJSON :: string where
  \<open>twoJSON = ''[{"name":"Boss Tee","description":"Defeat lag in style","price":24.99},{"name":"Lag Slayer","description":"Ping under control","price":19}]''\<close>

definition twoEnv :: Env where
  "twoEnv = scenario twoJSON [bossTee, lagSlayer]
     (\<lambda>i. Inr (oneImage (if i = 0 then ''AAAA'' else ''BBBB'')))"

text \<open>
  The same two products, with an image service that looks at the prompt it is given: it
  answers the prompt of line 117 for Boss Tee with the bytes AAAA, the one for Lag Slayer
  with BBBB, and rejects any other prompt.
\<close>

definition bossTeePrompt :: string where
  "bossTeePrompt =
     ''A professional ecommerce product photograph of a t-shirt featuring a clean, modern, minimalist graphic design inspired by ''
     @ [CHR 0x22] @ ''Boss Tee'' @ [CHR 0x22]
     @ ''. The t-shirt is neatly displayed on a neutral, light gray background. High-quality, commercial photography.''"

definition lagSlayerPrompt :: string where
  "lagSlayerPrompt =
     ''A professional ecommerce product photograph of a t-shirt featuring a clean, modern, minimalist graphic design inspired by ''
     @ [CHR 0x22] @ ''Lag Slayer'' @ [CHR 0x22]
     @ ''. The t-shirt is neatly displayed on a neutral, light gray background. High-quality, commercial photography.''"

definition byPrompt :: Env where
  "byPrompt =
     \<lparr>generateContent = (\<lambda>request. Inr \<lparr>response_text = Some twoJSON\<rparr>),
      JSON_parse = (\<lambda>t. if t = twoJSON then Inr [bossTee, lagSlayer] else Inl SyntaxError),
      generateImages =
        (\<lambda>i request.
           if prompt request = bossTeePrompt then Inr (oneImage ''AAAA'')
           else if prompt request = lagSlayerPrompt then Inr (oneImage ''BBBB'')
           else Inl (Error ''unknown prompt''))\<rparr>"

text \<open>The same two products, the second image call rejected.\<close>

definition secondImageFails :: Env where
  "secondImageFails = scenario twoJSON [bossTee, lagSlayer]
     (\<lambda>i. if i = 0 then Inr (oneImage ''AAAA'') else Inl (Error ''quota exceeded''))"

text \<open>A rejected text call; and a text call whose text is cut off and does not parse.\<close>

definition textRejected :: Env where
  "textRejected =
     \<lparr>generateContent = (\<lambda>request. Inl (Error ''network'')),
      JSON_parse = (\<lambda>t. Inl SyntaxError),
      generateImages = (\<lambda>i request. Inr (oneImage ''AAAA''))\<rparr>"

definition textCutOff :: Env where
  \<open>textCutOff =
     \<lparr>generateContent = (\<lambda>request. Inr \<lparr>response_text = Some ''[{"name":"Boss''\<rparr>),
      JSON_parse = (\<lambda>t. Inl SyntaxError),
      generateImages = (\<lambda>i request. Inr (oneImage ''AAAA''))\<rparr>\<close>

text \<open>An empty array.\<close>

definition emptyEnv :: Env where
  "emptyEnv = scenario ''[]'' [] (\<lambda>i. Inl (Error ''never called''))"

text \<open>Six products where five were asked for.\<close>

definition tee :: "string \<Rightarrow> ProductSpec" where
  "tee n = \<lparr>name = ''Tee '' @ n, description = ''Limited drop'', price = Finite 20\<rparr>"

definition sixSpecs :: "ProductSpec list" where
  "sixSpecs = [tee ''1'', tee ''2'', tee ''3'', tee ''4'', tee ''5'', tee ''6'']"

definition sixJSON :: string where
  \<open>sixJSON = ''[{"name":"Tee 1","description":"Limited drop","price":20},{"name":"Tee 2","description":"Limited drop","price":20},{"name":"Tee 3","description":"Limited drop","price":20},{"name":"Tee 4","description":"Limited drop","price":20},{"name":"Tee 5","description":"Limited drop","price":20},{"name":"Tee 6","description":"Limited drop","price":20}]''\<close>

definition sixEnv :: Env where
  "sixEnv = scenario sixJSON sixSpecs (\<lambda>i. Inr (oneImage ''AAAA''))"

definition sixEvents :: "event list" where
  "sixEvents = TextSettles # map ImageSettles [0, 1, 2, 3, 4, 5]"

text \<open>A product with an empty name, an empty description and a negative price.\<close>

definition blankSpec :: ProductSpec where
  "blankSpec = \<lparr>name = '''', description = '''', price = Finite (- 1)\<rparr>"

definition blankJSON :: string where
  \<open>blankJSON = ''[{"name":"","description":"","price":-1}]''\<close>

definition blankEnv :: Env where
  "blankEnv = scenario blankJSON [blankSpec] (\<lambda>i. Inr (oneImage ''AAAA''))"

text \<open>Number::toString is not reached by any price below; a placeholder stands for it.\<close>

definition noToString :: "number \<Rightarrow> string" where
  "noToString x = ''?''"

section \<open>Lemmas about the event loop\<close>

lemma errorMessage_nonempty: "errorMessage \<noteq> ''''"
  by (simp add: errorMessage_def)

lemma productPromises_length [simp]: "length (productPromises env specs) = length specs"
  by (simp add: productPromises_def)

lemma productPromises_nth:
  "i < length specs \<Longrightarrow> productPromises env specs ! i = productPromise env i (specs ! i)"
  by (simp add: productPromises_def nth_enumerate_eq)

lemma world_inv_mount: "world_inv env mount"
  by (simp add: world_inv_def mount_def initialState_def)

lemma world_inv_click: "world_inv env w \<Longrightarrow> world_inv env (w\<lparr>ui := LiveChat_onClick (ui w) c\<rparr>)"
  by (cases c) (auto simp: world_inv_def failed_inv_def succeeded_inv_def split: phase.splits)

lemma world_inv_catch:
  assumes "textCalls w = [textRequest]" "products (ui w) = []"
    and "(\<exists>e. productTextData env = Inl e \<and> imageCalls w = []) \<or>
      (\<exists>specs i e. productTextData env = Inr specs \<and> i < length specs \<and>
         productPromise env i (specs ! i) = Inl e \<and> imageCalls w = map imageRequest specs)"
  shows "world_inv env (catch_finally err w)"
  using assms by (simp add: world_inv_def catch_finally_def failed_inv_def)

lemma slots_full:
  assumes ok: "slots_ok env specs slots" and full: "None \<notin> set slots"
  shows "map Inr (map the slots) = productPromises env specs"
proof (rule nth_equalityI)
  show "length (map Inr (map the slots)) = length (productPromises env specs)"
    using ok by (simp add: slots_ok_def)
next
  fix i assume "i < length (map Inr (map the slots))"
  then have i: "i < length slots" by simp
  then have "slots ! i \<in> set slots" by simp
  with full obtain p where p: "slots ! i = Some p" by (cases "slots ! i") auto
  from ok i p have "productPromise env i (specs ! i) = Inr p"
    by (simp add: slots_ok_def)
  with ok i p show "map Inr (map the slots) ! i = productPromises env specs ! i"
    by (simp add: slots_ok_def productPromises_nth)
qed

lemma world_inv_await_all:
  assumes "textCalls w = [textRequest]" "products (ui w) = []" "loading (ui w)" "error (ui w) = ''''"
    "console w = []" "imageCalls w = map imageRequest specs" "productTextData env = Inr specs"
    "slots_ok env specs slots"
  shows "world_inv env (await_all specs slots w)"
proof (cases "None \<in> set slots")
  case True
  with assms show ?thesis by (simp add: await_all_def world_inv_def)
next
  case False
  with assms slots_full[OF assms(8) False] show ?thesis
    by (simp add: await_all_def world_inv_def setProducts_finally_def succeeded_inv_def)
qed

lemma slots_ok_replicate: "slots_ok env specs (replicate (length specs) None)"
  by (simp add: slots_ok_def)

lemma slots_ok_update:
  assumes "slots_ok env specs slots" "i < length specs" "productPromise env i (specs ! i) = Inr p"
  shows "slots_ok env specs (slots[i := Some p])"
  using assms by (auto simp: slots_ok_def nth_list_update)

lemma world_inv_resume:
  assumes "world_inv env w" "phase w = AwaitingText"
  shows "world_inv env (fetchProducts_resume env w)"
proof (cases "productTextData env")
  case (Inl e)
  have "world_inv env (catch_finally e w)"
    using assms Inl by (intro world_inv_catch) (auto simp: world_inv_def)
  with Inl show ?thesis by (simp add: fetchProducts_resume_def)
next
  case (Inr specs)
  have "world_inv env (await_all specs (replicate (length specs) None)
            (w\<lparr>imageCalls := imageCalls w @ map imageRequest specs\<rparr>))"
    using assms Inr by (intro world_inv_await_all slots_ok_replicate) (auto simp: world_inv_def)
  with Inr show ?thesis by (simp add: fetchProducts_resume_def)
qed

lemma world_inv_step: "world_inv env w \<Longrightarrow> world_inv env (step env w ev)"
proof (induction env w ev rule: step.induct)
  case (1 env w)
  then show ?case by (cases "phase w") (simp_all add: world_inv_resume)
next
  case (2 env w i)
  show ?case
  proof (cases "phase w")
    case (AwaitingImages specs slots)
    show ?thesis
    proof (cases "i < length specs \<and> i < length slots \<and> slots ! i = None")
      case False
      with AwaitingImages 2 show ?thesis by auto
    next
      case True
      show ?thesis
      proof (cases "productPromise env i (specs ! i)")
        case (Inl e)
        have "world_inv env (catch_finally e w)"
          using 2 AwaitingImages True Inl by (intro world_inv_catch) (auto simp: world_inv_def)
        with AwaitingImages True Inl show ?thesis by simp
      next
        case (Inr p)
        have "world_inv env (await_all specs (slots[i := Some p]) w)"
          using 2 AwaitingImages True Inr
          by (intro world_inv_await_all slots_ok_update) (auto simp: world_inv_def)
        with AwaitingImages True Inr show ?thesis by simp
      qed
    qed
  qed (use 2 in simp_all)
next
  case (3 env w c)
  then show ?case by (simp add: world_inv_click)
qed

lemma world_inv_foldl: "world_inv env w \<Longrightarrow> world_inv env (foldl (step env) w evs)"
  by (induction evs arbitrary: w) (simp_all add: world_inv_step)

lemma world_inv_run: "world_inv env (run env evs)"
  by (simp add: run_def world_inv_foldl world_inv_mount)


lemma LiveChat_onClick_fields:
  "products (LiveChat_onClick s c) = products s"
  "loading (LiveChat_onClick s c) = loading s"
  "error (LiveChat_onClick s c) = error s"
  by (cases c; simp)+

lemma foldl_LiveChat_onClick_fields:
  "products (foldl LiveChat_onClick s clicks) = products s \<and>
   loading (foldl LiveChat_onClick s clicks) = loading s \<and>
   error (foldl LiveChat_onClick s clicks) = error s"
  by (induction clicks arbitrary: s) (simp_all add: LiveChat_onClick_fields)

lemma foldl_LiveChat_onClick_frame:
  "foldl LiveChat_onClick s clicks = s\<lparr>isChatOpen := isChatOpen (foldl LiveChat_onClick s clicks)\<rparr>"
  by (rule UIState.equality) (simp_all add: foldl_LiveChat_onClick_fields)

lemma run_append: "run env (evs @ evs') = foldl (step env) (run env evs) evs'"
  by (simp add: run_def)

lemma step_Finished:
  "phase w = Finished \<Longrightarrow>
   phase (step env w ev) = Finished \<and>
   products (ui (step env w ev)) = products (ui w) \<and>
   loading (ui (step env w ev)) = loading (ui w) \<and>
   error (ui (step env w ev)) = error (ui w) \<and>
   imageCalls (step env w ev) = imageCalls w \<and>
   console (step env w ev) = console w"
proof (cases ev)
  case (Click c)
  assume "phase w = Finished"
  with Click show ?thesis by (cases c) simp_all
qed simp_all

lemma foldl_Finished:
  "phase w = Finished \<Longrightarrow>
   phase (foldl (step env) w evs) = Finished \<and>
   products (ui (foldl (step env) w evs)) = products (ui w) \<and>
   loading (ui (foldl (step env) w evs)) = loading (ui w) \<and>
   error (ui (foldl (step env) w evs)) = error (ui w) \<and>
   imageCalls (foldl (step env) w evs) = imageCalls w \<and>
   console (foldl (step env) w evs) = console w"
proof (induction evs arbitrary: w)
  case Nil
  then show ?case by simp
next
  case (Cons ev evs)
  from step_Finished[OF Cons.prems, of env ev] Cons.IH[of "step env w ev"]
  show ?case by simp
qed

lemma await_all_phase: "phase (await_all specs slots w) \<noteq> AwaitingText"
  by (simp add: await_all_def setProducts_finally_def)

lemma resume_phase: "phase (fetchProducts_resume env w) \<noteq> AwaitingText"
  by (simp add: fetchProducts_resume_def await_all_phase catch_finally_def split: sum.split)

lemma step_leaves_AwaitingText:
  "ev = TextSettles \<or> phase w \<noteq> AwaitingText \<Longrightarrow> phase (step env w ev) \<noteq> AwaitingText"
proof (cases ev)
  case TextSettles
  then show ?thesis by (cases "phase w") (simp_all add: resume_phase)
next
  case (ImageSettles i)
  assume "ev = TextSettles \<or> phase w \<noteq> AwaitingText"
  with ImageSettles show ?thesis
    by (cases "phase w") (simp_all add: await_all_phase catch_finally_def split: sum.split)
next
  case (Click c)
  assume "ev = TextSettles \<or> phase w \<noteq> AwaitingText"
  with Click show ?thesis by simp
qed

lemma foldl_leaves_AwaitingText:
  "TextSettles \<in> set evs \<or> phase w \<noteq> AwaitingText \<Longrightarrow>
   phase (foldl (step env) w evs) \<noteq> AwaitingText"
proof (induction evs arbitrary: w)
  case Nil
  then show ?case by simp
next
  case (Cons ev evs)
  show ?case
  proof (cases "ev = TextSettles \<or> phase w \<noteq> AwaitingText")
    case True
    then have "phase (step env w ev) \<noteq> AwaitingText" by (rule step_leaves_AwaitingText)
    then show ?thesis using Cons.IH[of "step env w ev"] by simp
  next
    case False
    with Cons.prems have "TextSettles \<in> set evs" by auto
    then show ?thesis using Cons.IH[of "step env w ev"] by simp
  qed
qed

lemma run_leaves_AwaitingText: "TextSettles \<in> set evs \<Longrightarrow> phase (run env evs) \<noteq> AwaitingText"
  by (simp add: run_def foldl_leaves_AwaitingText)

lemma pending_step:
  assumes "phase w \<noteq> AwaitingText" and "i \<in> pending (step env w ev)"
  shows "i \<in> pending w \<and> ev \<noteq> ImageSettles i"
proof (cases ev)
  case TextSettles
  with assms show ?thesis by (cases "phase w") simp_all
next
  case (Click c)
  with assms show ?thesis by (simp add: pending_def)
next
  case (ImageSettles j)
  show ?thesis
  proof (cases "phase w")
    case AwaitingText
    with assms show ?thesis by simp
  next
    case Finished
    with assms ImageSettles show ?thesis by (simp add: pending_def)
  next
    case (AwaitingImages specs slots)
    show ?thesis
    proof (cases "j < length specs \<and> j < length slots \<and> slots ! j = None")
      case False
      with assms ImageSettles AwaitingImages show ?thesis by (auto simp: pending_def)
    next
      case True
      show ?thesis
      proof (cases "productPromise env j (specs ! j)")
        case (Inl e)
        with assms ImageSettles AwaitingImages True show ?thesis
          by (simp add: pending_def catch_finally_def)
      next
        case (Inr p)
        with assms ImageSettles AwaitingImages True show ?thesis
          by (auto simp: pending_def await_all_def setProducts_finally_def nth_list_update
                   split: if_splits)
      qed
    qed
  qed
qed

lemma pending_nonempty:
  assumes "world_inv env w" "phase w = AwaitingImages specs slots"
  shows "pending w \<noteq> {}"
proof -
  from assms have "None \<in> set slots" and len: "length slots = length specs"
    by (simp_all add: world_inv_def slots_ok_def)
  then obtain i where "i < length slots" "slots ! i = None"
    by (metis in_set_conv_nth)
  with len assms(2) have "i \<in> pending w" by (simp add: pending_def)
  then show ?thesis by blast
qed

lemma foldl_finishes:
  assumes "world_inv env w" "phase w \<noteq> AwaitingText"
    and "\<forall>i\<in>pending w. ImageSettles i \<in> set evs"
  shows "phase (foldl (step env) w evs) = Finished"
  using assms
proof (induction evs arbitrary: w)
  case Nil
  show ?case
  proof (cases "phase w")
    case (AwaitingImages specs slots)
    with Nil pending_nonempty[of env w specs slots] show ?thesis by auto
  qed (use Nil in simp_all)
next
  case (Cons ev evs)
  have inv': "world_inv env (step env w ev)" using Cons.prems(1) by (rule world_inv_step)
  have ph': "phase (step env w ev) \<noteq> AwaitingText"
    using Cons.prems(2) by (simp add: step_leaves_AwaitingText)
  have "\<forall>i\<in>pending (step env w ev). ImageSettles i \<in> set evs"
  proof
    fix i assume "i \<in> pending (step env w ev)"
    from pending_step[OF Cons.prems(2) this] Cons.prems(3) show "ImageSettles i \<in> set evs"
      by auto
  qed
  from Cons.IH[OF inv' ph' this] show ?case by simp
qed

lemma pending_bound: "i \<in> pending w \<Longrightarrow> world_inv env w \<Longrightarrow> productTextData env = Inr specs \<Longrightarrow> i < length specs"
  by (auto simp: pending_def world_inv_def split: phase.splits)

lemma run_TextSettles_inv:
  "world_inv env (step env (run env pre) TextSettles) \<and>
   phase (step env (run env pre) TextSettles) \<noteq> AwaitingText"
proof
  show "world_inv env (step env (run env pre) TextSettles)"
    by (rule world_inv_step) (rule world_inv_run)
  show "phase (step env (run env pre) TextSettles) \<noteq> AwaitingText"
    by (rule step_leaves_AwaitingText) simp
qed

lemma run_split:
  "run env (pre @ TextSettles # post) = foldl (step env) (step env (run env pre) TextSettles) post"
  by (simp add: run_def)

lemma run_finishes:
  assumes parsed: "productTextData env = Inr specs"
    and all: "\<forall>i<length specs. ImageSettles i \<in> set post"
  shows "phase (run env (pre @ TextSettles # post)) = Finished"
proof -
  let ?w = "step env (run env pre) TextSettles"
  have "\<forall>i\<in>pending ?w. ImageSettles i \<in> set post"
    using all pending_bound[OF _ _ parsed, of _ ?w] run_TextSettles_inv[of env pre] by blast
  with run_TextSettles_inv[of env pre] show ?thesis
    unfolding run_split by (intro foldl_finishes) simp_all
qed

lemma scenario_productTextData: "productTextData (scenario json specs images) = Inr specs"
  by (simp add: productTextData_def scenario_def)

lemma scenario_productPromise:
  "productPromise (scenario json specs images) i p =
     (case images i of
        Inl err \<Rightarrow> Inl err
      | Inr imageResponse \<Rightarrow>
          (case imageUrl_of imageResponse of
             Inl err \<Rightarrow> Inl err
           | Inr url \<Rightarrow> Inr \<lparr>name = name p, description = description p, price = price p, imageUrl = url\<rparr>))"
  by (simp add: productPromise_def scenario_def)

lemma imageUrl_of_oneImage: "imageUrl_of (oneImage bytes) = Inr (''data:image/png;base64,'' @ bytes)"
  by (simp add: imageUrl_of_def oneImage_def)

lemmas run_simps =
  run_def mount_def initialState_def fetchProducts_resume_def await_all_def
  setProducts_finally_def catch_finally_def scenario_productTextData
  scenario_productPromise imageUrl_of_oneImage

lemma run_Finished_cases:
  "phase (run env evs) = Finished \<Longrightarrow>
   \<not> loading (ui (run env evs)) \<and>
   (failed_inv env (run env evs) \<or> succeeded_inv env (run env evs))"
  using world_inv_run[of env evs] by (simp add: world_inv_def)

lemma run_succeeded:
  assumes "phase (run env evs) = Finished" "error (ui (run env evs)) = ''''"
  shows "succeeded_inv env (run env evs)"
  using run_Finished_cases[OF assms(1)] assms(2)
  by (auto simp: failed_inv_def errorMessage_def)

lemma succeeded_products:
  assumes "succeeded_inv env w" "productTextData env = Inr specs"
  shows "map Inr (products (ui w)) = productPromises env specs"
  using assms by (auto simp: succeeded_inv_def)

lemma succeeded_nth:
  assumes "succeeded_inv env w" "productTextData env = Inr specs" "i < length specs"
  shows "length (products (ui w)) = length specs"
    and "productPromise env i (specs ! i) = Inr (products (ui w) ! i)"
proof -
  have eq: "map Inr (products (ui w)) = productPromises env specs"
    using assms(1,2) by (rule succeeded_products)
  then have "length (map Inr (products (ui w)) :: (js_error + Product) list) = length specs"
    by simp
  then show len: "length (products (ui w)) = length specs" by simp
  have "map Inr (products (ui w)) ! i = productPromises env specs ! i"
    using eq by simp
  with len assms(3) show "productPromise env i (specs ! i) = Inr (products (ui w) ! i)"
    by (simp add: productPromises_nth)
qed

lemma succeeded_length:
  assumes "succeeded_inv env w" "productTextData env = Inr specs"
  shows "length (products (ui w)) = length specs"
proof -
  have "length (map Inr (products (ui w)) :: (js_error + Product) list) = length specs"
    using succeeded_products[OF assms] by simp
  then show ?thesis by simp
qed

lemma productPromise_Inr:
  assumes "productPromise env i s = Inr p"
  shows "\<exists>imageResponse url.
           generateImages env i (imageRequest s) = Inr imageResponse \<and>
           imageUrl_of imageResponse = Inr url \<and>
           p = \<lparr>name = name s, description = description s, price = price s, imageUrl = url\<rparr>"
  using assms by (auto simp: productPromise_def split: sum.splits)

lemma grid_when_succeeded:
  assumes "\<not> loading s" "error s = ''''"
  shows "products_grid (App toString s) = Some (map (ProductCard toString) (products s))"
    and "error_box (App toString s) = None"
    and "\<not> loader (App toString s)"
  using assms by (simp_all add: App_def)

lemma no_grid_unless_succeeded:
  assumes "loading s \<or> error s \<noteq> ''''"
  shows "products_grid (App toString s) = None"
  using assms by (auto simp: App_def)

lemma run_not_succeeded:
  assumes parsed: "productTextData env = Inr specs" and i: "i < length specs"
    and fails: "productPromise env i (specs ! i) = Inl err"
  shows "\<not> succeeded_inv env (run env evs)"
proof
  assume "succeeded_inv env (run env evs)"
  from succeeded_nth(2)[OF this parsed i] fails show False by simp
qed

lemma run_products_empty_or_succeeded:
  "products (ui (run env evs)) = [] \<and>
     (loading (ui (run env evs)) \<or> error (ui (run env evs)) \<noteq> '''') \<or>
   phase (run env evs) = Finished \<and> succeeded_inv env (run env evs) \<and> \<not> loading (ui (run env evs))"
  using world_inv_run[of env evs]
  by (cases "phase (run env evs)") (auto simp: world_inv_def failed_inv_def errorMessage_def)

lemma run_imageCalls:
  "imageCalls (run env evs) = [] \<or>
   (\<exists>specs. productTextData env = Inr specs \<and> imageCalls (run env evs) = map imageRequest specs)"
  using world_inv_run[of env evs]
  by (cases "phase (run env evs)") (auto simp: world_inv_def failed_inv_def succeeded_inv_def)

lemma run_settled_phase:
  assumes "TextSettles \<in> set evs"
  shows "phase (run env evs) = Finished \<or>
         (\<exists>specs slots. phase (run env evs) = AwaitingImages specs slots \<and>
            productTextData env = Inr specs \<and> length slots = length specs \<and> None \<in> set slots)"
  using world_inv_run[of env evs] run_leaves_AwaitingText[OF assms, of env]
  by (cases "phase (run env evs)") (auto simp: world_inv_def slots_ok_def)

lemma foldl_rejects:
  assumes "world_inv env w" "phase w \<noteq> AwaitingText"
    and "productTextData env = Inr specs" "i < length specs"
    and "productPromise env i (specs ! i) = Inl err"
    and "ImageSettles i \<in> set evs"
  shows "phase (foldl (step env) w evs) = Finished"
  using assms(1,2,6)
proof (induction evs arbitrary: w)
  case Nil
  then show ?case by simp
next
  case (Cons ev evs)
  have inv': "world_inv env (step env w ev)" using Cons.prems(1) by (rule world_inv_step)
  have ph': "phase (step env w ev) \<noteq> AwaitingText"
    by (rule step_leaves_AwaitingText) (simp add: Cons.prems(2))
  show ?case
  proof (cases "ev = ImageSettles i")
    case False
    with Cons.prems(3) have "ImageSettles i \<in> set evs" by auto
    from Cons.IH[OF inv' ph' this] show ?thesis by simp
  next
    case True
    have "phase (step env w ev) = Finished"
    proof (cases "phase w")
      case AwaitingText
      with Cons.prems(2) show ?thesis by simp
    next
      case Finished
      with True show ?thesis by simp
    next
      case (AwaitingImages specs' slots)
      with Cons.prems(1) assms(3) have same: "specs' = specs" and ok: "slots_ok env specs slots"
        by (simp_all add: world_inv_def)
      have "slots ! i = None"
      proof (cases "slots ! i")
        case (Some p)
        with ok assms(4) have "productPromise env i (specs ! i) = Inr p"
          by (simp add: slots_ok_def)
        with assms(5) show ?thesis by simp
      qed simp
      with AwaitingImages same ok assms(4,5) True show ?thesis
        by (simp add: slots_ok_def catch_finally_def)
    qed
    then show ?thesis using foldl_Finished[of "step env w ev" env evs] by simp
  qed
qed

lemma run_rejects:
  assumes "productTextData env = Inr specs" "i < length specs"
    and "productPromise env i (specs ! i) = Inl err"
    and "ImageSettles i \<in> set post"
  shows "phase (run env (pre @ TextSettles # post)) = Finished"
  unfolding run_split
  using run_TextSettles_inv[of env pre] assms by (intro foldl_rejects) simp_all

lemma toFixed_24_99: "toFixed toString 2 (Finite double_24_99) = ''24.99''"
  by code_simp

lemma toFixed_minus_one: "toFixed toString 2 (Finite (- 1)) = ''-1.00''"
  by code_simp

lemma double_24_99_is_nearest:
  "double_24_99 * 2 ^ 48 = 7034059667999293 \<and>
   (2::int) ^ 52 \<le> 7034059667999293 \<and> (7034059667999293::int) < 2 ^ 53 \<and>
   \<bar>double_24_99 - 2499 / 100\<bar> \<le> 1 / 2 ^ 49"
  by (simp add: double_24_99_def)

lemma succeeded_specs:
  assumes succ: "succeeded_inv env w" and parsed: "productTextData env = Inr specs"
  shows "map (\<lambda>p. \<lparr>name = name p, description = description p, price = price p\<rparr>) (products (ui w)) = specs"
proof (rule nth_equalityI)
  show "length (map (\<lambda>p. \<lparr>name = name p, description = description p, price = price p\<rparr>)
          (products (ui w))) = length specs"
    using succeeded_length[OF succ parsed] by simp
next
  fix i
  assume "i < length (map (\<lambda>p. \<lparr>name = name p, description = description p, price = price p\<rparr>)
          (products (ui w)))"
  then have i: "i < length specs" and i': "i < length (products (ui w))"
    using succeeded_length[OF succ parsed] by simp_all
  from productPromise_Inr[OF succeeded_nth(2)[OF succ parsed i]]
  have "\<lparr>name = name (products (ui w) ! i), description = description (products (ui w) ! i),
         price = price (products (ui w) ! i)\<rparr> = specs ! i"
    by auto
  with i' show "map (\<lambda>p. \<lparr>name = name p, description = description p, price = price p\<rparr>)
          (products (ui w)) ! i = specs ! i"
    by simp
qed

lemma foldl_Click:
  "foldl (step env) w (map Click clicks) = w\<lparr>ui := foldl LiveChat_onClick (ui w) clicks\<rparr>"
  by (induction clicks arbitrary: w) simp_all

lemma without_chat_idem [simp]: "without_chat (without_chat w) = without_chat w"
  by (simp add: without_chat_def)

lemma without_chat_click:
  "without_chat (w\<lparr>ui := LiveChat_onClick (ui w) c\<rparr>) = without_chat w"
  by (cases c) (simp_all add: without_chat_def)

lemma without_chat_await_all:
  "without_chat (await_all specs slots (without_chat w)) = without_chat (await_all specs slots w)"
  by (simp add: without_chat_def await_all_def setProducts_finally_def)

lemma without_chat_catch:
  "without_chat (catch_finally err (without_chat w)) = without_chat (catch_finally err w)"
  by (simp add: without_chat_def catch_finally_def)

lemma without_chat_phase [simp]: "phase (without_chat w) = phase w"
  by (simp add: without_chat_def)

lemma without_chat_step:
  "without_chat (step env (without_chat w) ev) = without_chat (step env w ev)"
proof (cases ev)
  case TextSettles
  show ?thesis
  proof (cases "phase w")
    case AwaitingText
    have "without_chat (fetchProducts_resume env (without_chat w)) =
          without_chat (fetchProducts_resume env w)"
      by (simp add: fetchProducts_resume_def without_chat_def await_all_def
          setProducts_finally_def catch_finally_def split: sum.split)
    with AwaitingText TextSettles show ?thesis by simp
  qed (simp_all add: TextSettles)
next
  case (ImageSettles i)
  show ?thesis
  proof (cases "phase w")
    case (AwaitingImages specs slots)
    then show ?thesis
      by (simp add: ImageSettles without_chat_await_all without_chat_catch split: sum.split)
  qed (simp_all add: ImageSettles)
next
  case (Click c)
  then show ?thesis by (cases c) (simp_all add: without_chat_def)
qed

lemma foldl_without_chat:
  "without_chat (foldl (step env) (without_chat w) evs) = without_chat (foldl (step env) w evs)"
proof (induction evs arbitrary: w)
  case Nil
  show ?case by simp
next
  case (Cons ev evs)
  have "without_chat (foldl (step env) (step env (without_chat w) ev) evs) =
        without_chat (foldl (step env) (without_chat (step env (without_chat w) ev)) evs)"
    by (simp add: Cons.IH)
  also have "\<dots> = without_chat (foldl (step env) (without_chat (step env w ev)) evs)"
    by (simp add: without_chat_step)
  also have "\<dots> = without_chat (foldl (step env) (step env w ev) evs)"
    by (simp add: Cons.IH)
  finally show ?case by simp
qed

lemma foldl_ignores_clicks:
  "without_chat (foldl (step env) w evs) =
   without_chat (foldl (step env) w (filter (\<lambda>ev. \<not> is_click ev) evs))"
proof (induction evs arbitrary: w)
  case Nil
  show ?case by simp
next
  case (Cons ev evs)
  show ?case
  proof (cases ev)
    case (Click c)
    have "without_chat (foldl (step env) (step env w (Click c)) evs) =
          without_chat (foldl (step env) (without_chat (step env w (Click c))) evs)"
      by (simp add: foldl_without_chat)
    also have "\<dots> = without_chat (foldl (step env) (without_chat w) evs)"
      by (simp add: without_chat_click)
    also have "\<dots> = without_chat (foldl (step env) w evs)"
      by (simp add: foldl_without_chat)
    finally show ?thesis using Click Cons.IH[of w] by simp
  qed (simp_all add: Cons.IH)
qed

lemma without_chat_eqD:
  assumes "without_chat w = without_chat w'"
  shows "products (ui w) = products (ui w')" and "loading (ui w) = loading (ui w')"
    and "error (ui w) = error (ui w')" and "phase w = phase w'"
    and "imageCalls w = imageCalls w'" and "console w = console w'"
proof -
  have same: "f (without_chat w) = f (without_chat w')" for f :: "World \<Rightarrow> 'b"
    by (simp only: assms)
  from same[of "\<lambda>w. products (ui w)"] show "products (ui w) = products (ui w')"
    by (simp add: without_chat_def)
  from same[of "\<lambda>w. loading (ui w)"] show "loading (ui w) = loading (ui w')"
    by (simp add: without_chat_def)
  from same[of "\<lambda>w. error (ui w)"] show "error (ui w) = error (ui w')"
    by (simp add: without_chat_def)
  from same[of phase] show "phase w = phase w'"
    by (simp add: without_chat_def)
  from same[of imageCalls] show "imageCalls w = imageCalls w'"
    by (simp add: without_chat_def)
  from same[of console] show "console w = console w'"
    by (simp add: without_chat_def)
qed

lemma run_ignores_clicks:
  "without_chat (run env evs) = without_chat (run env (filter (\<lambda>ev. \<not> is_click ev) evs))"
  unfolding run_def by (rule foldl_ignores_clicks)

lemma imageUrl_of_Inr:
  assumes "imageUrl_of imageResponse = Inr url"
  shows "\<exists>first rest img.
           generatedImages imageResponse = Some (first # rest) \<and>
           image_data first = Some img \<and>
           url = ''data:image/png;base64,'' @ (case imageBytes img of None \<Rightarrow> ''undefined'' | Some b \<Rightarrow> b)"
  using assms by (auto simp: imageUrl_of_def split: option.splits list.splits)

lemma succeeded_imageCalls:
  assumes "succeeded_inv env w" "productTextData env = Inr specs"
  shows "imageCalls w = map imageRequest specs"
  using assms by (auto simp: succeeded_inv_def)

lemma toFixed_19: "toFixed toString 2 (Finite 19) = ''19.00''"
  by code_simp

lemma byPrompt_productTextData: "productTextData byPrompt = Inr [bossTee, lagSlayer]"
  by (simp add: productTextData_def byPrompt_def)

lemma byPrompt_bossTee:
  "generateImages byPrompt i (imageRequest bossTee) = Inr (oneImage ''AAAA'')"
  by (simp add: byPrompt_def imageRequest_def imagePrompt_def bossTee_def bossTeePrompt_def)

lemma byPrompt_lagSlayer:
  "generateImages byPrompt i (imageRequest lagSlayer) = Inr (oneImage ''BBBB'')"
  by (simp add: byPrompt_def imageRequest_def imagePrompt_def lagSlayer_def bossTeePrompt_def
      lagSlayerPrompt_def)

lemma byPrompt_productPromise:
  "productPromise byPrompt i bossTee =
     Inr \<lparr>name = ''Boss Tee'', description = ''Defeat lag in style'', price = Finite double_24_99,
          imageUrl = ''data:image/png;base64,AAAA''\<rparr>"
  "productPromise byPrompt i lagSlayer =
     Inr \<lparr>name = ''Lag Slayer'', description = ''Ping under control'', price = Finite 19,
          imageUrl = ''data:image/png;base64,BBBB''\<rparr>"
  unfolding productPromise_def byPrompt_bossTee byPrompt_lagSlayer
  by (simp_all add: imageUrl_of_oneImage bossTee_def lagSlayer_def)

section \<open>The claims\<close>

text \<open>
  C1. Whenever the workflow has finished without an error, whatever the order in which
  the events came (so whatever the order in which the image calls completed):
  there are as many products as the text call returned specs; the image requests sent
  are those of the specs, in the order of the specs, and the request for spec \<open>i\<close> has
  the prompt of line 117 with the name of spec \<open>i\<close> between the quotation marks; the
  product at index \<open>i\<close> is spec \<open>i\<close> with the data URL of the first image in the
  response to that request; and the grid has one card per spec, the card at index \<open>i\<close>
  showing that URL and the name, description and price of spec \<open>i\<close>.
\<close>

theorem fetchProducts_keeps_text_order:
  assumes parsed: "productTextData env = Inr specs"
    and finished: "phase (run env evs) = Finished"
    and no_error: "error (ui (run env evs)) = ''''"
    and i: "i < length specs"
  shows "length (products (ui (run env evs))) = length specs \<and>
         imageCalls (run env evs) = map imageRequest specs \<and>
         imageRequest (specs ! i) =
           \<lparr>image_model = ''imagen-4.0-generate-001'',
            prompt =
              ''A professional ecommerce product photograph of a t-shirt featuring a clean, modern, minimalist graphic design inspired by ''
              @ [CHR 0x22] @ name (specs ! i) @ [CHR 0x22]
              @ ''. The t-shirt is neatly displayed on a neutral, light gray background. High-quality, commercial photography.'',
            numberOfImages = 1,
            outputMimeType = ''image/png'',
            aspectRatio = ''1:1''\<rparr> \<and>
         (\<exists>imageResponse first rest img url.
            generateImages env i (imageRequest (specs ! i)) = Inr imageResponse \<and>
            generatedImages imageResponse = Some (first # rest) \<and>
            image_data first = Some img \<and>
            url = ''data:image/png;base64,'' @
                    (case imageBytes img of None \<Rightarrow> ''undefined'' | Some b \<Rightarrow> b) \<and>
            products (ui (run env evs)) ! i =
              \<lparr>name = name (specs ! i), description = description (specs ! i),
               price = price (specs ! i), imageUrl = url\<rparr> \<and>
            map_option (\<lambda>cards. cards ! i) (products_grid (App toString (ui (run env evs)))) =
              Some \<lparr>img_src = url,
                    img_alt = ''AI generated image of '' @ name (specs ! i),
                    product_name = name (specs ! i),
                    product_description = description (specs ! i),
                    product_price = ''$'' @ toFixed toString 2 (price (specs ! i)),
                    buy_button_label = ''Add '' @ name (specs ! i) @ '' to cart''\<rparr>) \<and>
         map_option length (products_grid (App toString (ui (run env evs)))) = Some (length specs)"
proof -
  let ?w = "run env evs"
  have succ: "succeeded_inv env ?w"
    using finished no_error by (rule run_succeeded)
  have len: "length (products (ui ?w)) = length specs"
    using succ parsed i by (rule succeeded_nth(1))
  have calls: "imageCalls ?w = map imageRequest specs"
    using succ parsed by (rule succeeded_imageCalls)
  have request: "imageRequest (specs ! i) =
           \<lparr>image_model = ''imagen-4.0-generate-001'',
            prompt =
              ''A professional ecommerce product photograph of a t-shirt featuring a clean, modern, minimalist graphic design inspired by ''
              @ [CHR 0x22] @ name (specs ! i) @ [CHR 0x22]
              @ ''. The t-shirt is neatly displayed on a neutral, light gray background. High-quality, commercial photography.'',
            numberOfImages = 1,
            outputMimeType = ''image/png'',
            aspectRatio = ''1:1''\<rparr>"
    by (simp add: imageRequest_def imagePrompt_def)
  have "\<not> loading (ui ?w)"
    using run_Finished_cases[OF finished] by simp
  then have grid: "products_grid (App toString (ui ?w)) =
           Some (map (ProductCard toString) (products (ui ?w)))"
    using no_error by (rule grid_when_succeeded(1))
  have count: "map_option length (products_grid (App toString (ui ?w))) = Some (length specs)"
    using grid len by simp
  have card: "map_option (\<lambda>cards. cards ! i) (products_grid (App toString (ui ?w))) =
              Some (ProductCard toString (products (ui ?w) ! i))"
    using grid len i by simp
  have "productPromise env i (specs ! i) = Inr (products (ui ?w) ! i)"
    using succ parsed i by (rule succeeded_nth(2))
  from productPromise_Inr[OF this]
  obtain imageResponse url0 where
    resp: "generateImages env i (imageRequest (specs ! i)) = Inr imageResponse"
    and url0: "imageUrl_of imageResponse = Inr url0"
    and prod: "products (ui ?w) ! i =
              \<lparr>name = name (specs ! i), description = description (specs ! i),
               price = price (specs ! i), imageUrl = url0\<rparr>"
    by blast
  from imageUrl_of_Inr[OF url0]
  obtain first rest img where
    first: "generatedImages imageResponse = Some (first # rest)"
    and img: "image_data first = Some img"
    and url: "url0 = ''data:image/png;base64,'' @
                    (case imageBytes img of None \<Rightarrow> ''undefined'' | Some b \<Rightarrow> b)"
    by blast
  have shown: "map_option (\<lambda>cards. cards ! i) (products_grid (App toString (ui ?w))) =
              Some \<lparr>img_src = url0,
                    img_alt = ''AI generated image of '' @ name (specs ! i),
                    product_name = name (specs ! i),
                    product_description = description (specs ! i),
                    product_price = ''$'' @ toFixed toString 2 (price (specs ! i)),
                    buy_button_label = ''Add '' @ name (specs ! i) @ '' to cart''\<rparr>"
    unfolding card prod by (simp add: ProductCard_def)
  have "\<exists>imageResponse first rest img url.
            generateImages env i (imageRequest (specs ! i)) = Inr imageResponse \<and>
            generatedImages imageResponse = Some (first # rest) \<and>
            image_data first = Some img \<and>
            url = ''data:image/png;base64,'' @
                    (case imageBytes img of None \<Rightarrow> ''undefined'' | Some b \<Rightarrow> b) \<and>
            products (ui ?w) ! i =
              \<lparr>name = name (specs ! i), description = description (specs ! i),
               price = price (specs ! i), imageUrl = url\<rparr> \<and>
            map_option (\<lambda>cards. cards ! i) (products_grid (App toString (ui ?w))) =
              Some \<lparr>img_src = url,
                    img_alt = ''AI generated image of '' @ name (specs ! i),
                    product_name = name (specs ! i),
                    product_description = description (specs ! i),
                    product_price = ''$'' @ toFixed toString 2 (price (specs ! i)),
                    buy_button_label = ''Add '' @ name (specs ! i) @ '' to cart''\<rparr>"
    using resp first img url prod shown by blast
  with len calls request count show ?thesis by blast
qed

text \<open>
  Every order in which the image calls can complete ends in such a run: when the text
  call parses, every image promise is fulfilled, and each one settles at some point after
  the text call, the workflow finishes without an error.
\<close>

lemma fetchProducts_succeeds_in_any_order:
  assumes parsed: "productTextData env = Inr specs"
    and fulfilled: "\<forall>i<length specs. \<exists>p. productPromise env i (specs ! i) = Inr p"
    and settle: "\<forall>i<length specs. ImageSettles i \<in> set post"
  shows "phase (run env (pre @ TextSettles # post)) = Finished \<and>
         error (ui (run env (pre @ TextSettles # post))) = ''''"
proof -
  let ?w = "run env (pre @ TextSettles # post)"
  have fin: "phase ?w = Finished" using parsed settle by (rule run_finishes)
  have "\<not> failed_inv env ?w"
    using parsed fulfilled by (auto simp: failed_inv_def)
  with run_Finished_cases[OF fin] have "succeeded_inv env ?w" by simp
  with fin show ?thesis by (simp add: succeeded_inv_def)
qed

text \<open>
  A run in which the second image call completes before the first, with a click in
  between, against an image service that answers by prompt: the products and the cards
  are in the order of the text response, each with the image of its own prompt.
\<close>

lemma byPrompt_run:
  "phase (run byPrompt [TextSettles, ImageSettles (Suc 0), Click (Bubble False), ImageSettles 0]) = Finished \<and>
   error (ui (run byPrompt [TextSettles, ImageSettles (Suc 0), Click (Bubble False), ImageSettles 0])) = ''''"
  by (simp add: run_def mount_def initialState_def fetchProducts_resume_def await_all_def
      setProducts_finally_def catch_finally_def byPrompt_productTextData byPrompt_productPromise)

theorem fetchProducts_keeps_text_order_witness:
  "productTextData byPrompt = Inr [bossTee, lagSlayer] \<and>
   phase (run byPrompt [TextSettles, ImageSettles (Suc 0), Click (Bubble False), ImageSettles 0]) = Finished \<and>
   error (ui (run byPrompt [TextSettles, ImageSettles (Suc 0), Click (Bubble False), ImageSettles 0])) = '''' \<and>
   0 < length [bossTee, lagSlayer] \<and>
   Suc 0 < length [bossTee, lagSlayer] \<and>
   length (products (ui (run byPrompt [TextSettles, ImageSettles (Suc 0), Click (Bubble False), ImageSettles 0]))) = 2 \<and>
   map prompt (imageCalls (run byPrompt [TextSettles, ImageSettles (Suc 0), Click (Bubble False), ImageSettles 0])) =
     [bossTeePrompt, lagSlayerPrompt] \<and>
   products (ui (run byPrompt [TextSettles, ImageSettles (Suc 0), Click (Bubble False), ImageSettles 0])) ! 0 =
     \<lparr>name = ''Boss Tee'', description = ''Defeat lag in style'', price = Finite double_24_99,
      imageUrl = ''data:image/png;base64,AAAA''\<rparr> \<and>
   products (ui (run byPrompt [TextSettles, ImageSettles (Suc 0), Click (Bubble False), ImageSettles 0])) ! Suc 0 =
     \<lparr>name = ''Lag Slayer'', description = ''Ping under control'', price = Finite 19,
      imageUrl = ''data:image/png;base64,BBBB''\<rparr> \<and>
   map_option (\<lambda>cards. cards ! 0)
     (products_grid (App noToString (ui (run byPrompt [TextSettles, ImageSettles (Suc 0), Click (Bubble False), ImageSettles 0])))) =
     Some \<lparr>img_src = ''data:image/png;base64,AAAA'', img_alt = ''AI generated image of Boss Tee'',
           product_name = ''Boss Tee'', product_description = ''Defeat lag in style'',
           product_price = ''$24.99'', buy_button_label = ''Add Boss Tee to cart''\<rparr> \<and>
   map_option (\<lambda>cards. cards ! Suc 0)
     (products_grid (App noToString (ui (run byPrompt [TextSettles, ImageSettles (Suc 0), Click (Bubble False), ImageSettles 0])))) =
     Some \<lparr>img_src = ''data:image/png;base64,BBBB'', img_alt = ''AI generated image of Lag Slayer'',
           product_name = ''Lag Slayer'', product_description = ''Ping under control'',
           product_price = ''$19.00'', buy_button_label = ''Add Lag Slayer to cart''\<rparr> \<and>
   map_option length
     (products_grid (App noToString (ui (run byPrompt [TextSettles, ImageSettles (Suc 0), Click (Bubble False), ImageSettles 0])))) =
     Some 2"
proof -
  let ?evs = "[TextSettles, ImageSettles (Suc 0), Click (Bubble False), ImageSettles 0]"
  let ?w = "run byPrompt ?evs"
  have h1: "productTextData byPrompt = Inr [bossTee, lagSlayer]"
    by (rule byPrompt_productTextData)
  have h2: "phase ?w = Finished" using byPrompt_run by simp
  have h3: "error (ui ?w) = ''''" using byPrompt_run by simp
  have h4: "0 < length [bossTee, lagSlayer]" by simp
  have h5: "Suc 0 < length [bossTee, lagSlayer]" by simp
  have two: "length [bossTee, lagSlayer] = 2" by simp
  note at0 = fetchProducts_keeps_text_order[OF h1 h2 h3 h4, of noToString]
  note at1 = fetchProducts_keeps_text_order[OF h1 h2 h3 h5, of noToString]
  note len = at0[THEN conjunct1, unfolded two]
  note calls = at0[THEN conjunct2, THEN conjunct1]
  note request0 = at0[THEN conjunct2, THEN conjunct2, THEN conjunct1]
  note request1 = at1[THEN conjunct2, THEN conjunct2, THEN conjunct1]
  note shown0 = at0[THEN conjunct2, THEN conjunct2, THEN conjunct2, THEN conjunct1]
  note shown1 = at1[THEN conjunct2, THEN conjunct2, THEN conjunct2, THEN conjunct1]
  note count = at0[THEN conjunct2, THEN conjunct2, THEN conjunct2, THEN conjunct2, unfolded two]
  have "prompt (imageRequest bossTee) = bossTeePrompt"
    using request0 by (simp add: bossTee_def bossTeePrompt_def)
  moreover have "prompt (imageRequest lagSlayer) = lagSlayerPrompt"
    using request1 by (simp add: lagSlayer_def lagSlayerPrompt_def)
  ultimately have prompts: "map prompt (imageCalls ?w) = [bossTeePrompt, lagSlayerPrompt]"
    by (simp add: calls)
  from shown0 obtain r0 g0 rest0 img0 url0 where
    a0: "generateImages byPrompt 0 (imageRequest ([bossTee, lagSlayer] ! 0)) = Inr r0"
    and b0: "generatedImages r0 = Some (g0 # rest0)"
    and c0: "image_data g0 = Some img0"
    and u0: "url0 = ''data:image/png;base64,'' @
               (case imageBytes img0 of None \<Rightarrow> ''undefined'' | Some b \<Rightarrow> b)"
    and p0: "products (ui ?w) ! 0 =
              \<lparr>name = name ([bossTee, lagSlayer] ! 0), description = description ([bossTee, lagSlayer] ! 0),
               price = price ([bossTee, lagSlayer] ! 0), imageUrl = url0\<rparr>"
    and s0: "map_option (\<lambda>cards. cards ! 0) (products_grid (App noToString (ui ?w))) =
              Some \<lparr>img_src = url0,
                    img_alt = ''AI generated image of '' @ name ([bossTee, lagSlayer] ! 0),
                    product_name = name ([bossTee, lagSlayer] ! 0),
                    product_description = description ([bossTee, lagSlayer] ! 0),
                    product_price = ''$'' @ toFixed noToString 2 (price ([bossTee, lagSlayer] ! 0)),
                    buy_button_label = ''Add '' @ name ([bossTee, lagSlayer] ! 0) @ '' to cart''\<rparr>"
    by blast
  from a0 byPrompt_bossTee[of 0] have "r0 = oneImage ''AAAA''" by simp
  with b0 c0 have "imageBytes img0 = Some ''AAAA''" by (auto simp: oneImage_def)
  with u0 have url0: "url0 = ''data:image/png;base64,AAAA''" by simp
  have first: "products (ui ?w) ! 0 =
     \<lparr>name = ''Boss Tee'', description = ''Defeat lag in style'', price = Finite double_24_99,
      imageUrl = ''data:image/png;base64,AAAA''\<rparr>"
    using p0 by (simp add: url0 bossTee_def)
  have card0: "map_option (\<lambda>cards. cards ! 0) (products_grid (App noToString (ui ?w))) =
     Some \<lparr>img_src = ''data:image/png;base64,AAAA'', img_alt = ''AI generated image of Boss Tee'',
           product_name = ''Boss Tee'', product_description = ''Defeat lag in style'',
           product_price = ''$24.99'', buy_button_label = ''Add Boss Tee to cart''\<rparr>"
    unfolding s0 by (simp add: url0 bossTee_def toFixed_24_99)
  from shown1 obtain r1 g1 rest1 img1 url1 where
    a1: "generateImages byPrompt (Suc 0) (imageRequest ([bossTee, lagSlayer] ! Suc 0)) = Inr r1"
    and b1: "generatedImages r1 = Some (g1 # rest1)"
    and c1: "image_data g1 = Some img1"
    and u1: "url1 = ''data:image/png;base64,'' @
               (case imageBytes img1 of None \<Rightarrow> ''undefined'' | Some b \<Rightarrow> b)"
    and p1: "products (ui ?w) ! Suc 0 =
              \<lparr>name = name ([bossTee, lagSlayer] ! Suc 0),
               description = description ([bossTee, lagSlayer] ! Suc 0),
               price = price ([bossTee, lagSlayer] ! Suc 0), imageUrl = url1\<rparr>"
    and s1: "map_option (\<lambda>cards. cards ! Suc 0) (products_grid (App noToString (ui ?w))) =
              Some \<lparr>img_src = url1,
                    img_alt = ''AI generated image of '' @ name ([bossTee, lagSlayer] ! Suc 0),
                    product_name = name ([bossTee, lagSlayer] ! Suc 0),
                    product_description = description ([bossTee, lagSlayer] ! Suc 0),
                    product_price = ''$'' @ toFixed noToString 2 (price ([bossTee, lagSlayer] ! Suc 0)),
                    buy_button_label = ''Add '' @ name ([bossTee, lagSlayer] ! Suc 0) @ '' to cart''\<rparr>"
    by blast
  from a1 byPrompt_lagSlayer[of "Suc 0"] have "r1 = oneImage ''BBBB''" by simp
  with b1 c1 have "imageBytes img1 = Some ''BBBB''" by (auto simp: oneImage_def)
  with u1 have url1: "url1 = ''data:image/png;base64,BBBB''" by simp
  have second: "products (ui ?w) ! Suc 0 =
     \<lparr>name = ''Lag Slayer'', description = ''Ping under control'', price = Finite 19,
      imageUrl = ''data:image/png;base64,BBBB''\<rparr>"
    using p1 by (simp add: url1 lagSlayer_def)
  have card1: "map_option (\<lambda>cards. cards ! Suc 0) (products_grid (App noToString (ui ?w))) =
     Some \<lparr>img_src = ''data:image/png;base64,BBBB'', img_alt = ''AI generated image of Lag Slayer'',
           product_name = ''Lag Slayer'', product_description = ''Ping under control'',
           product_price = ''$19.00'', buy_button_label = ''Add Lag Slayer to cart''\<rparr>"
    unfolding s1 by (simp add: url1 lagSlayer_def toFixed_19)
  from h1 h2 h3 h4 h5 len prompts first second card0 card1 count show ?thesis
    by (intro conjI)
qed

text \<open>
  C2. When the text call parses and the image promise of some product \<open>i\<close> is rejected
  (the image call fails, or its response holds no image), the products stay empty and no
  grid is rendered at any point of any run; and once that promise has settled, the
  workflow has finished with the one error message, which the page shows in place of
  the grid.
\<close>

theorem image_failure_is_all_or_nothing:
  assumes parsed: "productTextData env = Inr specs"
    and i: "i < length specs"
    and fails: "productPromise env i (specs ! i) = Inl err"
    and settles: "ImageSettles i \<in> set post"
  shows "products (ui (run env evs)) = [] \<and>
         products_grid (App toString (ui (run env evs))) = None \<and>
         phase (run env (pre @ TextSettles # post)) = Finished \<and>
         products (ui (run env (pre @ TextSettles # post))) = [] \<and>
         error (ui (run env (pre @ TextSettles # post))) = errorMessage \<and>
         \<not> loading (ui (run env (pre @ TextSettles # post))) \<and>
         error_box (App toString (ui (run env (pre @ TextSettles # post)))) = Some errorMessage \<and>
         products_grid (App toString (ui (run env (pre @ TextSettles # post)))) = None"
proof -
  have never: "products (ui (run env evs')) = [] \<and>
               products_grid (App toString (ui (run env evs'))) = None" for evs'
    using run_products_empty_or_succeeded[of env evs']
      run_not_succeeded[OF parsed i fails, of evs']
    by (auto simp: no_grid_unless_succeeded)
  let ?w = "run env (pre @ TextSettles # post)"
  have fin: "phase ?w = Finished"
    using parsed i fails settles by (rule run_rejects)
  have "\<not> succeeded_inv env ?w"
    using parsed i fails by (rule run_not_succeeded)
  with run_Finished_cases[OF fin] have failed: "failed_inv env ?w" and nl: "\<not> loading (ui ?w)"
    by simp_all
  then have err: "error (ui ?w) = errorMessage" by (simp add: failed_inv_def)
  then have "error_box (App toString (ui ?w)) = Some errorMessage"
    by (simp add: App_def errorMessage_def)
  with never[of evs] never[of "pre @ TextSettles # post"] fin err nl show ?thesis by simp
qed

theorem image_failure_is_all_or_nothing_witness:
  "productTextData secondImageFails = Inr [bossTee, lagSlayer] \<and>
   Suc 0 < length [bossTee, lagSlayer] \<and>
   productPromise secondImageFails (Suc 0) ([bossTee, lagSlayer] ! Suc 0) = Inl (Error ''quota exceeded'') \<and>
   ImageSettles (Suc 0) \<in> set [ImageSettles 0, ImageSettles (Suc 0)] \<and>
   products (ui (run secondImageFails [TextSettles, ImageSettles 0])) = [] \<and>
   products_grid (App noToString (ui (run secondImageFails [TextSettles, ImageSettles 0]))) = None \<and>
   ui (run secondImageFails [TextSettles, ImageSettles 0, ImageSettles (Suc 0)]) =
     \<lparr>products = [], loading = False,
      error = ''Failed to generate merchandise. Please try again later.'', isChatOpen = False\<rparr> \<and>
   error_box (App noToString (ui (run secondImageFails [TextSettles, ImageSettles 0, ImageSettles (Suc 0)]))) =
     Some ''Failed to generate merchandise. Please try again later.''"
proof -
  have h1: "productTextData secondImageFails = Inr [bossTee, lagSlayer]"
    by (simp add: secondImageFails_def scenario_productTextData)
  have h2: "Suc 0 < length [bossTee, lagSlayer]" by simp
  have h3: "productPromise secondImageFails (Suc 0) ([bossTee, lagSlayer] ! Suc 0) =
            Inl (Error ''quota exceeded'')"
    by (simp add: secondImageFails_def scenario_productPromise)
  have h4: "ImageSettles (Suc 0) \<in> set [ImageSettles 0, ImageSettles (Suc 0)]" by simp
  have chat: "isChatOpen (ui (run secondImageFails [TextSettles, ImageSettles 0, ImageSettles (Suc 0)])) = False"
    by (simp add: secondImageFails_def run_simps)
  from image_failure_is_all_or_nothing[OF h1 h2 h3 h4,
      of "[TextSettles, ImageSettles 0]" noToString "[]"] chat
  have "products (ui (run secondImageFails [TextSettles, ImageSettles 0])) = [] \<and>
   products_grid (App noToString (ui (run secondImageFails [TextSettles, ImageSettles 0]))) = None \<and>
   ui (run secondImageFails [TextSettles, ImageSettles 0, ImageSettles (Suc 0)]) =
     \<lparr>products = [], loading = False,
      error = ''Failed to generate merchandise. Please try again later.'', isChatOpen = False\<rparr> \<and>
   error_box (App noToString (ui (run secondImageFails [TextSettles, ImageSettles 0, ImageSettles (Suc 0)]))) =
     Some ''Failed to generate merchandise. Please try again later.''"
    by (simp add: errorMessage_def UIState.equality)
  with h1 h2 h3 h4 show ?thesis by blast
qed

text \<open>
  C3. When the text call fails (the call is rejected, or its text does not parse), no
  image request is ever sent, and once the text call has settled the workflow has
  finished in the error state: no products, the error message, not loading.
\<close>

theorem text_failure_issues_no_image_call:
  assumes fails: "productTextData env = Inl err"
    and settled: "TextSettles \<in> set evs"
  shows "imageCalls (run env evs') = [] \<and>
         imageCalls (run env evs) = [] \<and>
         phase (run env evs) = Finished \<and>
         products (ui (run env evs)) = [] \<and>
         error (ui (run env evs)) = errorMessage \<and>
         \<not> loading (ui (run env evs)) \<and>
         error_box (App toString (ui (run env evs))) = Some errorMessage \<and>
         products_grid (App toString (ui (run env evs))) = None"
proof -
  have calls: "imageCalls (run env evs') = []" for evs'
    using run_imageCalls[of env evs'] fails by auto
  let ?w = "run env evs"
  have fin: "phase ?w = Finished"
    using run_settled_phase[OF settled, of env] fails by auto
  have "\<not> succeeded_inv env ?w"
    using fails by (simp add: succeeded_inv_def)
  with run_Finished_cases[OF fin] have failed: "failed_inv env ?w" and nl: "\<not> loading (ui ?w)"
    by simp_all
  then have err: "error (ui ?w) = errorMessage" and none: "products (ui ?w) = []"
    by (simp_all add: failed_inv_def)
  from err have "error_box (App toString (ui ?w)) = Some errorMessage"
    and "products_grid (App toString (ui ?w)) = None"
    by (simp_all add: App_def errorMessage_def)
  with calls[of evs'] calls[of evs] fin none err nl show ?thesis by simp
qed

text \<open>The two ways the text step fails: a rejected call, and a text that does not parse.\<close>

lemma productTextData_fails:
  "(\<exists>err. productTextData env = Inl err) \<longleftrightarrow>
   (\<exists>err. generateContent env textRequest = Inl err) \<or>
   (\<exists>textResponse. generateContent env textRequest = Inr textResponse \<and>
      (response_text textResponse = None \<or>
       (\<exists>t err. response_text textResponse = Some t \<and> JSON_parse env t = Inl err)))"
  by (auto simp: productTextData_def split: sum.splits option.splits)

theorem text_failure_issues_no_image_call_witness:
  "productTextData textRejected = Inl (Error ''network'') \<and>
   productTextData textCutOff = Inl SyntaxError \<and>
   TextSettles \<in> set [Click (Bubble False), TextSettles, ImageSettles 0] \<and>
   imageCalls (run textRejected [Click (Bubble False), TextSettles, ImageSettles 0]) = [] \<and>
   imageCalls (run textCutOff [Click (Bubble False), TextSettles, ImageSettles 0]) = [] \<and>
   ui (run textRejected [Click (Bubble False), TextSettles, ImageSettles 0]) =
     \<lparr>products = [], loading = False,
      error = ''Failed to generate merchandise. Please try again later.'', isChatOpen = True\<rparr> \<and>
   ui (run textCutOff [Click (Bubble False), TextSettles, ImageSettles 0]) =
     \<lparr>products = [], loading = False,
      error = ''Failed to generate merchandise. Please try again later.'', isChatOpen = True\<rparr>"
proof -
  let ?evs = "[Click (Bubble False), TextSettles, ImageSettles 0]"
  have h1: "productTextData textRejected = Inl (Error ''network'')"
    by (simp add: productTextData_def textRejected_def)
  have h1': "productTextData textCutOff = Inl SyntaxError"
    by (simp add: productTextData_def textCutOff_def)
  have h2: "TextSettles \<in> set ?evs" by simp
  have chat: "isChatOpen (ui (run textRejected ?evs)) = True"
    "isChatOpen (ui (run textCutOff ?evs)) = True"
    by (simp_all add: run_simps h1 h1')
  from text_failure_issues_no_image_call[OF h1 h2, of "[]" noToString]
    text_failure_issues_no_image_call[OF h1' h2, of "[]" noToString] chat
  have "imageCalls (run textRejected ?evs) = [] \<and>
   imageCalls (run textCutOff ?evs) = [] \<and>
   ui (run textRejected ?evs) =
     \<lparr>products = [], loading = False,
      error = ''Failed to generate merchandise. Please try again later.'', isChatOpen = True\<rparr> \<and>
   ui (run textCutOff ?evs) =
     \<lparr>products = [], loading = False,
      error = ''Failed to generate merchandise. Please try again later.'', isChatOpen = True\<rparr>"
    by (simp add: errorMessage_def UIState.equality)
  with h1 h1' h2 show ?thesis by blast
qed

text \<open>
  C4, as the code has it. In a finished, error-free run the grid holds exactly one card
  per spec the text call returned (and the state one product per spec). Nothing bounds
  that number: five is what the prompt asks for, and the response is used as it comes.
\<close>

theorem rendered_count_is_text_count:
  assumes parsed: "productTextData env = Inr specs"
    and finished: "phase (run env evs) = Finished"
    and no_error: "error (ui (run env evs)) = ''''"
  shows "length (products (ui (run env evs))) = length specs \<and>
         map_option length (products_grid (App toString (ui (run env evs)))) = Some (length specs)"
proof -
  have succ: "succeeded_inv env (run env evs)"
    using finished no_error by (rule run_succeeded)
  have len: "length (products (ui (run env evs))) = length specs"
    using succ parsed by (rule succeeded_length)
  have "\<not> loading (ui (run env evs))"
    using run_Finished_cases[OF finished] by simp
  then have "products_grid (App toString (ui (run env evs))) =
           Some (map (ProductCard toString) (products (ui (run env evs))))"
    using no_error by (rule grid_when_succeeded(1))
  with len show ?thesis by simp
qed

lemma length_sixSpecs: "length sixSpecs = 6"
  by (simp add: sixSpecs_def)

lemma six_run:
  "phase (run sixEnv sixEvents) = Finished \<and> error (ui (run sixEnv sixEvents)) = ''''"
proof -
  have "\<forall>i<length sixSpecs. \<exists>p. productPromise sixEnv i (sixSpecs ! i) = Inr p"
    by (simp add: sixEnv_def scenario_productPromise imageUrl_of_oneImage)
  moreover have "\<forall>i<length sixSpecs. ImageSettles i \<in> set (map ImageSettles [0, 1, 2, 3, 4, 5])"
  proof (intro allI impI)
    fix i assume "i < length sixSpecs"
    then have "i \<in> {0, 1, 2, 3, 4, 5}" by (auto simp: sixSpecs_def)
    then show "ImageSettles i \<in> set (map ImageSettles [0, 1, 2, 3, 4, 5])" by auto
  qed
  moreover have "productTextData sixEnv = Inr sixSpecs"
    by (simp add: sixEnv_def scenario_productTextData)
  ultimately show ?thesis
    using fetchProducts_succeeds_in_any_order[of sixEnv sixSpecs "map ImageSettles [0, 1, 2, 3, 4, 5]" "[]"]
    by (simp add: sixEvents_def)
qed

theorem rendered_count_is_text_count_witness:
  "productTextData sixEnv = Inr sixSpecs \<and>
   phase (run sixEnv sixEvents) = Finished \<and>
   error (ui (run sixEnv sixEvents)) = '''' \<and>
   length (products (ui (run sixEnv sixEvents))) = 6 \<and>
   map_option length (products_grid (App noToString (ui (run sixEnv sixEvents)))) = Some 6"
proof -
  have h1: "productTextData sixEnv = Inr sixSpecs"
    by (simp add: sixEnv_def scenario_productTextData)
  have h2: "phase (run sixEnv sixEvents) = Finished" using six_run by simp
  have h3: "error (ui (run sixEnv sixEvents)) = ''''" using six_run by simp
  from rendered_count_is_text_count[OF h1 h2 h3, of noToString] h1 h2 h3
  show ?thesis by (simp add: length_sixSpecs)
qed

text \<open>
  C4 as stated fails: the text call returns six specs, every image call succeeds, and the
  finished, error-free run renders six cards, more than the five asked for.
\<close>

theorem count_not_bounded_by_five_counterexample:
  "productTextData sixEnv = Inr sixSpecs \<and>
   phase (run sixEnv sixEvents) = Finished \<and>
   error (ui (run sixEnv sixEvents)) = '''' \<and>
   map_option length (products_grid (App noToString (ui (run sixEnv sixEvents)))) = Some 6 \<and>
   \<not> length (products (ui (run sixEnv sixEvents))) \<le> 5"
proof -
  have h1: "productTextData sixEnv = Inr sixSpecs"
    by (simp add: sixEnv_def scenario_productTextData)
  have h2: "phase (run sixEnv sixEvents) = Finished" using six_run by simp
  have h3: "error (ui (run sixEnv sixEvents)) = ''''" using six_run by simp
  have succ: "succeeded_inv sixEnv (run sixEnv sixEvents)" using h2 h3 by (rule run_succeeded)
  have len: "length (products (ui (run sixEnv sixEvents))) = 6"
    using succeeded_length[OF succ h1] by (simp add: length_sixSpecs)
  have "\<not> loading (ui (run sixEnv sixEvents))"
    using run_Finished_cases[OF h2] by simp
  then have "products_grid (App noToString (ui (run sixEnv sixEvents))) =
           Some (map (ProductCard noToString) (products (ui (run sixEnv sixEvents))))"
    using h3 by (rule grid_when_succeeded(1))
  with len h1 h2 h3 show ?thesis by simp
qed

text \<open>
  C5, as the code has it. The workflow checks nothing and changes nothing: the image
  requests it sends are the requests of the parsed specs, in order, and the products it
  hands to the view carry the name, description and price of the parsed specs, in order.
  So every value it passes on satisfies the data-model invariant if every spec the text
  call returned does.
\<close>

theorem passes_on_what_the_text_call_returned:
  assumes parsed: "productTextData env = Inr specs"
  shows "(imageCalls (run env evs) = [] \<or> imageCalls (run env evs) = map imageRequest specs) \<and>
         (products (ui (run env evs)) = [] \<or>
          map (\<lambda>p. \<lparr>name = name p, description = description p, price = price p\<rparr>)
            (products (ui (run env evs))) = specs) \<and>
         (list_all ProductSpec_invariant specs \<longrightarrow>
          list_all ProductSpec_invariant (products (ui (run env evs))))"
proof -
  let ?w = "run env evs"
  let ?spec_of = "\<lambda>p::Product. \<lparr>name = name p, description = description p, price = price p\<rparr>"
  have calls: "imageCalls ?w = [] \<or> imageCalls ?w = map imageRequest specs"
    using run_imageCalls[of env evs] parsed by auto
  have prods: "products (ui ?w) = [] \<or> map ?spec_of (products (ui ?w)) = specs"
    using run_products_empty_or_succeeded[of env evs] succeeded_specs[OF _ parsed, of ?w]
    by blast
  have "list_all ProductSpec_invariant (products (ui ?w))"
    if valid: "list_all ProductSpec_invariant specs"
  proof (cases "products (ui ?w) = []")
    case True
    then show ?thesis by simp
  next
    case False
    with prods have eq: "map ?spec_of (products (ui ?w)) = specs" by simp
    have "list_all ProductSpec_invariant (map ?spec_of (products (ui ?w)))"
      using valid by (simp only: eq)
    then have "list_all (\<lambda>p. ProductSpec_invariant (?spec_of p)) (products (ui ?w))"
      by (simp add: list_all_iff)
    then show ?thesis
      by (simp add: list_all_iff ProductSpec_invariant_def)
  qed
  with calls prods show ?thesis by blast
qed

theorem passes_on_what_the_text_call_returned_witness:
  "productTextData twoEnv = Inr [bossTee, lagSlayer] \<and>
   imageCalls (run twoEnv [TextSettles, ImageSettles 0, ImageSettles (Suc 0)]) =
     [imageRequest bossTee, imageRequest lagSlayer] \<and>
   map (\<lambda>p. \<lparr>name = name p, description = description p, price = price p\<rparr>)
     (products (ui (run twoEnv [TextSettles, ImageSettles 0, ImageSettles (Suc 0)]))) =
     [bossTee, lagSlayer] \<and>
   list_all ProductSpec_invariant [bossTee, lagSlayer] \<and>
   list_all ProductSpec_invariant
     (products (ui (run twoEnv [TextSettles, ImageSettles 0, ImageSettles (Suc 0)])))"
proof -
  let ?evs = "[TextSettles, ImageSettles 0, ImageSettles (Suc 0)]"
  have h1: "productTextData twoEnv = Inr [bossTee, lagSlayer]"
    by (simp add: twoEnv_def scenario_productTextData)
  have valid: "list_all ProductSpec_invariant [bossTee, lagSlayer]"
    by (simp add: ProductSpec_invariant_def nonNegative_def bossTee_def lagSlayer_def
        double_24_99_def)
  have calls: "imageCalls (run twoEnv ?evs) \<noteq> []"
    by (simp add: twoEnv_def run_simps)
  have prods: "products (ui (run twoEnv ?evs)) \<noteq> []"
    by (simp add: twoEnv_def run_simps)
  from passes_on_what_the_text_call_returned[OF h1, of ?evs] calls prods valid h1
  show ?thesis by simp
qed

text \<open>
  C5 as stated fails: the text call returns a spec with an empty name, an empty
  description and the price -1. The run succeeds; the image request is built from the
  empty name, the product reaches the state unchanged, and its card is rendered with the
  price \<^verbatim>\<open>$-1.00\<close>.
\<close>

theorem invariant_not_enforced_counterexample:
  "productTextData blankEnv = Inr [blankSpec] \<and>
   \<not> ProductSpec_invariant blankSpec \<and>
   phase (run blankEnv [TextSettles, ImageSettles 0]) = Finished \<and>
   imageCalls (run blankEnv [TextSettles, ImageSettles 0]) = [imageRequest blankSpec] \<and>
   ui (run blankEnv [TextSettles, ImageSettles 0]) =
     \<lparr>products = [\<lparr>name = '''', description = '''', price = Finite (- 1),
                    imageUrl = ''data:image/png;base64,AAAA''\<rparr>],
      loading = False, error = '''', isChatOpen = False\<rparr> \<and>
   \<not> ProductSpec_invariant (hd (products (ui (run blankEnv [TextSettles, ImageSettles 0])))) \<and>
   products_grid (App noToString (ui (run blankEnv [TextSettles, ImageSettles 0]))) =
     Some [\<lparr>img_src = ''data:image/png;base64,AAAA'', img_alt = ''AI generated image of '',
            product_name = '''', product_description = '''', product_price = ''$-1.00'',
            buy_button_label = ''Add  to cart''\<rparr>]"
proof -
  let ?evs = "[TextSettles, ImageSettles 0]"
  have h1: "productTextData blankEnv = Inr [blankSpec]"
    by (simp add: blankEnv_def scenario_productTextData)
  have h2: "\<not> ProductSpec_invariant blankSpec"
    by (simp add: ProductSpec_invariant_def blankSpec_def)
  have w: "run blankEnv ?evs =
     \<lparr>ui = \<lparr>products = [\<lparr>name = '''', description = '''', price = Finite (- 1),
                    imageUrl = ''data:image/png;base64,AAAA''\<rparr>],
      loading = False, error = '''', isChatOpen = False\<rparr>,
      phase = Finished, textCalls = [textRequest], imageCalls = [imageRequest blankSpec],
      console = []\<rparr>"
    by (simp add: blankEnv_def run_simps blankSpec_def)
  have h3: "\<not> ProductSpec_invariant (hd (products (ui (run blankEnv ?evs))))"
    by (simp add: w ProductSpec_invariant_def)
  have h4: "products_grid (App noToString (ui (run blankEnv ?evs))) =
     Some [\<lparr>img_src = ''data:image/png;base64,AAAA'', img_alt = ''AI generated image of '',
            product_name = '''', product_description = '''', product_price = ''$-1.00'',
            buy_button_label = ''Add  to cart''\<rparr>]"
    by (simp add: w App_def ProductCard_def toFixed_minus_one)
  from h1 h2 h3 h4 show ?thesis by (simp add: w)
qed

text \<open>
  C6. The text call returns the single spec Boss Tee, Defeat lag in style, 24.99 (the
  double nearest to it), and the image call returns the bytes AAAA. Once the image call
  has settled, the state holds that one product and the grid shows one card with the
  name, the description, the price \<^verbatim>\<open>$24.99\<close> and the image source
  \<^verbatim>\<open>data:image/png;base64,AAAA\<close>.
\<close>

theorem boss_tee_scenario:
  assumes parsed: "productTextData env = Inr [bossTee]"
    and image: "generateImages env 0 (imageRequest bossTee) = Inr (oneImage ''AAAA'')"
    and settles: "ImageSettles 0 \<in> set post"
  shows "products (ui (run env (pre @ TextSettles # post))) =
           [\<lparr>name = ''Boss Tee'', description = ''Defeat lag in style'',
             price = Finite double_24_99, imageUrl = ''data:image/png;base64,AAAA''\<rparr>] \<and>
         products_grid (App toString (ui (run env (pre @ TextSettles # post)))) =
           Some [\<lparr>img_src = ''data:image/png;base64,AAAA'',
                  img_alt = ''AI generated image of Boss Tee'',
                  product_name = ''Boss Tee'',
                  product_description = ''Defeat lag in style'',
                  product_price = ''$24.99'',
                  buy_button_label = ''Add Boss Tee to cart''\<rparr>]"
proof -
  let ?w = "run env (pre @ TextSettles # post)"
  let ?p = "\<lparr>name = ''Boss Tee'', description = ''Defeat lag in style'',
             price = Finite double_24_99, imageUrl = ''data:image/png;base64,AAAA''\<rparr>"
  have promise: "productPromise env 0 bossTee = Inr ?p"
    unfolding productPromise_def image by (simp add: imageUrl_of_oneImage bossTee_def)
  have "phase ?w = Finished \<and> error (ui ?w) = ''''"
    using parsed promise settles
    by (intro fetchProducts_succeeds_in_any_order[of env "[bossTee]"]) simp_all
  then have fin: "phase ?w = Finished" and ok: "error (ui ?w) = ''''" by simp_all
  have succ: "succeeded_inv env ?w" using fin ok by (rule run_succeeded)
  have "length (products (ui ?w)) = length [bossTee]"
    using succ parsed by (rule succeeded_length)
  moreover have "productPromise env 0 ([bossTee] ! 0) = Inr (products (ui ?w) ! 0)"
    using succ parsed by (rule succeeded_nth(2)) simp
  ultimately have prods: "products (ui ?w) = [?p]"
    using promise by (cases "products (ui ?w)") auto
  have "\<not> loading (ui ?w)" using run_Finished_cases[OF fin] by simp
  then have "products_grid (App toString (ui ?w)) =
             Some (map (ProductCard toString) (products (ui ?w)))"
    using ok by (rule grid_when_succeeded(1))
  with prods show ?thesis by (simp add: ProductCard_def toFixed_24_99)
qed

theorem boss_tee_scenario_witness:
  "productTextData bossTeeEnv = Inr [bossTee] \<and>
   generateImages bossTeeEnv 0 (imageRequest bossTee) = Inr (oneImage ''AAAA'') \<and>
   ImageSettles 0 \<in> set [ImageSettles 0] \<and>
   products_grid (App noToString (ui (run bossTeeEnv [TextSettles, ImageSettles 0]))) =
     Some [\<lparr>img_src = ''data:image/png;base64,AAAA'',
            img_alt = ''AI generated image of Boss Tee'',
            product_name = ''Boss Tee'',
            product_description = ''Defeat lag in style'',
            product_price = ''$24.99'',
            buy_button_label = ''Add Boss Tee to cart''\<rparr>]"
proof -
  have h1: "productTextData bossTeeEnv = Inr [bossTee]"
    by (simp add: bossTeeEnv_def scenario_productTextData)
  have h2: "generateImages bossTeeEnv 0 (imageRequest bossTee) = Inr (oneImage ''AAAA'')"
    by (simp add: bossTeeEnv_def scenario_def)
  have h3: "ImageSettles 0 \<in> set [ImageSettles 0]" by simp
  from boss_tee_scenario[OF h1 h2 h3, of "[]" noToString] h1 h2 h3
  show ?thesis by simp
qed

text \<open>
  C7. Startup reads one variable of the environment, the API key: two environments that
  agree on it start the same way. Without it (or with an empty one) startup throws, and
  the result is the error alone: no client, no rendered page, no request. When startup
  succeeds the client holds the non-empty key and the page is the freshly mounted one.
\<close>

theorem startup_needs_API_KEY:
  "(process_env ''API_KEY'' = None \<longrightarrow>
      startup process_env = Inl (Error ''API_KEY environment variable not set'')) \<and>
   (process_env ''API_KEY'' = Some '''' \<longrightarrow>
      startup process_env = Inl (Error ''API_KEY environment variable not set'')) \<and>
   (process_env ''API_KEY'' = other_env ''API_KEY'' \<longrightarrow>
      startup process_env = startup other_env) \<and>
   (startup process_env = Inr (client, world) \<longrightarrow>
      process_env ''API_KEY'' = Some (apiKey client) \<and> apiKey client \<noteq> '''' \<and> world = mount)"
  by (auto simp: startup_def split: option.splits if_splits)

theorem startup_needs_API_KEY_witness:
  "Map.empty ''API_KEY'' = (None :: string option) \<and>
   startup Map.empty = Inl (Error ''API_KEY environment variable not set'') \<and>
   startup [''API_KEY'' \<mapsto> ''''] = Inl (Error ''API_KEY environment variable not set'') \<and>
   [''HOME'' \<mapsto> ''/root''] ''API_KEY'' = (Map.empty :: string \<rightharpoonup> string) ''API_KEY'' \<and>
   startup [''HOME'' \<mapsto> ''/root''] = startup Map.empty \<and>
   startup [''API_KEY'' \<mapsto> ''secret''] = Inr (\<lparr>apiKey = ''secret''\<rparr>, mount) \<and>
   [''API_KEY'' \<mapsto> ''secret''] ''API_KEY'' = Some (apiKey \<lparr>apiKey = ''secret''\<rparr>)"
proof -
  have h1: "Map.empty ''API_KEY'' = (None :: string option)" by simp
  have h2: "[''HOME'' \<mapsto> ''/root''] ''API_KEY'' = (Map.empty :: string \<rightharpoonup> string) ''API_KEY''"
    by simp
  have h3: "startup [''API_KEY'' \<mapsto> ''secret''] = Inr (\<lparr>apiKey = ''secret''\<rparr>, mount)"
    by (simp add: startup_def)
  from startup_needs_API_KEY[of Map.empty "[''HOME'' \<mapsto> ''/root'']"]
    startup_needs_API_KEY[of "[''HOME'' \<mapsto> ''/root'']" Map.empty]
    startup_needs_API_KEY[of "[''API_KEY'' \<mapsto> '''']" Map.empty]
    startup_needs_API_KEY[of "[''API_KEY'' \<mapsto> ''secret'']" Map.empty "\<lparr>apiKey = ''secret''\<rparr>" mount]
    h1 h2 h3
  show ?thesis by simp
qed

text \<open>
  C8. Any sequence of clicks on the chat bubble and the close button leaves the
  products, the loading flag and the error of a state as they were: the state after the
  clicks is the state before them with, at most, another \<open>isChatOpen\<close>. Nor do
  clicks reach the workflow: a run with clicks among its events ends with the products,
  loading flag, error and workflow position of the same run without them.
\<close>

theorem chat_clicks_change_only_isChatOpen:
  "products (foldl LiveChat_onClick s clicks) = products s \<and>
   loading (foldl LiveChat_onClick s clicks) = loading s \<and>
   error (foldl LiveChat_onClick s clicks) = error s \<and>
   foldl LiveChat_onClick s clicks =
     s\<lparr>isChatOpen := isChatOpen (foldl LiveChat_onClick s clicks)\<rparr> \<and>
   foldl (step env) w (map Click clicks) = w\<lparr>ui := foldl LiveChat_onClick (ui w) clicks\<rparr> \<and>
   products (ui (run env evs)) = products (ui (run env (filter (\<lambda>ev. \<not> is_click ev) evs))) \<and>
   loading (ui (run env evs)) = loading (ui (run env (filter (\<lambda>ev. \<not> is_click ev) evs))) \<and>
   error (ui (run env evs)) = error (ui (run env (filter (\<lambda>ev. \<not> is_click ev) evs))) \<and>
   phase (run env evs) = phase (run env (filter (\<lambda>ev. \<not> is_click ev) evs))"
proof -
  note state = foldl_LiveChat_onClick_fields[of s clicks]
  have frame: "foldl LiveChat_onClick s clicks =
     s\<lparr>isChatOpen := isChatOpen (foldl LiveChat_onClick s clicks)\<rparr>"
    by (rule foldl_LiveChat_onClick_frame)
  note same = without_chat_eqD[OF run_ignores_clicks[of env evs]]
  from state frame foldl_Click[of env w clicks] same(1,2,3,4) show ?thesis by blast
qed

theorem chat_clicks_change_only_isChatOpen_witness:
  "foldl LiveChat_onClick
     \<lparr>products = [], loading = True, error = '''', isChatOpen = False\<rparr>
     [Bubble False, Bubble True, Bubble False, Close, Bubble False] =
   \<lparr>products = [], loading = True, error = '''', isChatOpen = True\<rparr> \<and>
   foldl LiveChat_onClick
     \<lparr>products = [], loading = True, error = '''', isChatOpen = False\<rparr>
     [Bubble False, Bubble False] =
   \<lparr>products = [], loading = True, error = '''', isChatOpen = True\<rparr> \<and>
   foldl (step twoEnv) mount (map Click [Bubble False, Close, Bubble False]) =
     mount\<lparr>ui := initialState\<lparr>isChatOpen := True\<rparr>\<rparr> \<and>
   products (ui (run twoEnv [Click (Bubble False), TextSettles, ImageSettles 0, Click Close, ImageSettles (Suc 0), Click (Bubble False)])) =
     products (ui (run twoEnv [TextSettles, ImageSettles 0, ImageSettles (Suc 0)]))"
proof -
  let ?s = "\<lparr>products = [], loading = True, error = '''', isChatOpen = False\<rparr>"
  let ?five = "[Bubble False, Bubble True, Bubble False, Close, Bubble False]"
  let ?stale = "[Bubble False, Bubble False]"
  let ?three = "[Bubble False, Close, Bubble False]"
  let ?evs = "[Click (Bubble False), TextSettles, ImageSettles 0, Click Close,
               ImageSettles (Suc 0), Click (Bubble False)]"
  note five = chat_clicks_change_only_isChatOpen[of ?s ?five twoEnv mount ?evs]
  note stale = chat_clicks_change_only_isChatOpen[of ?s ?stale twoEnv mount "[]"]
  note three = chat_clicks_change_only_isChatOpen[of ?s ?three twoEnv mount "[]"]
  have open5: "isChatOpen (foldl LiveChat_onClick ?s ?five) = True" by simp
  have open2: "isChatOpen (foldl LiveChat_onClick ?s ?stale) = True" by simp
  have a: "foldl LiveChat_onClick ?s ?five =
           \<lparr>products = [], loading = True, error = '''', isChatOpen = True\<rparr>"
    using five[THEN conjunct2, THEN conjunct2, THEN conjunct2, THEN conjunct1]
    unfolding open5 by simp
  have b: "foldl LiveChat_onClick ?s ?stale =
           \<lparr>products = [], loading = True, error = '''', isChatOpen = True\<rparr>"
    using stale[THEN conjunct2, THEN conjunct2, THEN conjunct2, THEN conjunct1]
    unfolding open2 by simp
  have ui3: "foldl LiveChat_onClick (ui mount) ?three = initialState\<lparr>isChatOpen := True\<rparr>"
    by (simp add: mount_def initialState_def)
  have c: "foldl (step twoEnv) mount (map Click ?three) =
           mount\<lparr>ui := initialState\<lparr>isChatOpen := True\<rparr>\<rparr>"
    using three[THEN conjunct2, THEN conjunct2, THEN conjunct2, THEN conjunct2, THEN conjunct1]
    unfolding ui3 .
  have kept: "filter (\<lambda>ev. \<not> is_click ev) ?evs = [TextSettles, ImageSettles 0, ImageSettles (Suc 0)]"
    by simp
  have d: "products (ui (run twoEnv ?evs)) =
           products (ui (run twoEnv [TextSettles, ImageSettles 0, ImageSettles (Suc 0)]))"
    using five[THEN conjunct2, THEN conjunct2, THEN conjunct2, THEN conjunct2,
        THEN conjunct2, THEN conjunct1]
    unfolding kept .
  from a b c d show ?thesis by (intro conjI)
qed

text \<open>
  C9. When the text call returns the empty array, no image request is ever sent; once
  the text call has settled the workflow has finished with no products and no error, and
  the page shows the grid, empty, and no error box.
\<close>

theorem empty_text_response_succeeds:
  assumes parsed: "productTextData env = Inr []"
    and settled: "TextSettles \<in> set evs"
  shows "imageCalls (run env evs') = [] \<and>
         phase (run env evs) = Finished \<and>
         products (ui (run env evs)) = [] \<and>
         error (ui (run env evs)) = '''' \<and>
         \<not> loading (ui (run env evs)) \<and>
         products_grid (App toString (ui (run env evs))) = Some [] \<and>
         error_box (App toString (ui (run env evs))) = None"
proof -
  have calls: "imageCalls (run env evs') = []"
    using run_imageCalls[of env evs'] parsed by auto
  let ?w = "run env evs"
  have fin: "phase ?w = Finished"
    using run_settled_phase[OF settled, of env] parsed by auto
  have "\<not> failed_inv env ?w"
    using parsed by (simp add: failed_inv_def)
  with run_Finished_cases[OF fin] have succ: "succeeded_inv env ?w" and nl: "\<not> loading (ui ?w)"
    by simp_all
  have none: "products (ui ?w) = []"
    using succeeded_length[OF succ parsed] by simp
  have ok: "error (ui ?w) = ''''" using succ by (simp add: succeeded_inv_def)
  from grid_when_succeeded(1,2)[OF nl ok, of toString] none calls fin nl ok
  show ?thesis by simp
qed

theorem empty_text_response_succeeds_witness:
  "productTextData emptyEnv = Inr [] \<and>
   TextSettles \<in> set [TextSettles] \<and>
   imageCalls (run emptyEnv [TextSettles, ImageSettles 0]) = [] \<and>
   run emptyEnv [TextSettles] =
     \<lparr>ui = \<lparr>products = [], loading = False, error = '''', isChatOpen = False\<rparr>,
      phase = Finished, textCalls = [textRequest], imageCalls = [], console = []\<rparr> \<and>
   products_grid (App noToString (ui (run emptyEnv [TextSettles]))) = Some [] \<and>
   error_box (App noToString (ui (run emptyEnv [TextSettles]))) = None"
proof -
  have h1: "productTextData emptyEnv = Inr []"
    by (simp add: emptyEnv_def scenario_productTextData)
  have h2: "TextSettles \<in> set [TextSettles]" by simp
  have rest: "isChatOpen (ui (run emptyEnv [TextSettles])) = False"
    "textCalls (run emptyEnv [TextSettles]) = [textRequest]"
    "console (run emptyEnv [TextSettles]) = []"
    by (simp_all add: emptyEnv_def run_simps)
  from empty_text_response_succeeds[OF h1 h2, of "[TextSettles, ImageSettles 0]" noToString]
    empty_text_response_succeeds[OF h1 h2, of "[TextSettles]" noToString] rest h1 h2
  show ?thesis by (simp add: World.equality UIState.equality)
qed

text \<open>
  C10. Once the workflow has finished, in success or in failure, the loading flag is
  false and stays false whatever happens later; the state is not both loading and in
  error, and the loader is not rendered.
\<close>

theorem finished_is_not_loading:
  assumes finished: "phase (run env evs) = Finished"
  shows "\<not> loading (ui (run env (evs @ later))) \<and>
         \<not> (loading (ui (run env (evs @ later))) \<and> error (ui (run env (evs @ later))) \<noteq> '''') \<and>
         \<not> loader (App toString (ui (run env (evs @ later))))"
proof -
  have "\<not> loading (ui (run env evs))"
    using run_Finished_cases[OF finished] by simp
  then have "\<not> loading (ui (run env (evs @ later)))"
    using foldl_Finished[OF finished, of env later] by (simp add: run_append)
  then show ?thesis by (simp add: App_def)
qed

theorem finished_is_not_loading_witness:
  "phase (run twoEnv [TextSettles, ImageSettles (Suc 0), ImageSettles 0]) = Finished \<and>
   phase (run secondImageFails [TextSettles, ImageSettles (Suc 0)]) = Finished \<and>
   \<not> loading (ui (run twoEnv ([TextSettles, ImageSettles (Suc 0), ImageSettles 0] @ [Click (Bubble False)]))) \<and>
   \<not> loader (App noToString (ui (run twoEnv ([TextSettles, ImageSettles (Suc 0), ImageSettles 0] @ [Click (Bubble False)])))) \<and>
   \<not> loading (ui (run secondImageFails ([TextSettles, ImageSettles (Suc 0)] @ [ImageSettles 0]))) \<and>
   \<not> loader (App noToString (ui (run secondImageFails ([TextSettles, ImageSettles (Suc 0)] @ [ImageSettles 0]))))"
proof -
  have h1: "phase (run twoEnv [TextSettles, ImageSettles (Suc 0), ImageSettles 0]) = Finished"
    by (simp add: twoEnv_def run_simps)
  have h2: "phase (run secondImageFails [TextSettles, ImageSettles (Suc 0)]) = Finished"
    by (simp add: secondImageFails_def run_simps)
  from finished_is_not_loading[OF h1, of "[Click (Bubble False)]" noToString]
    finished_is_not_loading[OF h2, of "[ImageSettles 0]" noToString] h1 h2
  show ?thesis by blast
qed

end
